theory Spec2Isabelle
  imports Complex_Main "HOL-Library.Word"
begin

section \<open>GO2 video bridge: shared state\<close>

text \<open>
  The four scripts \<^verbatim>\<open>go2_video_bridge.py\<close> (v1), \<^verbatim>\<open>_v2\<close>, \<^verbatim>\<open>_v3\<close> and \<^verbatim>\<open>_v4\<close> share one
  design: a producer writes the newest JPEG frame into a global \<^verbatim>\<open>VideoState\<close> object under
  \<^verbatim>\<open>video_state.lock\<close>, and one coroutine per WebSocket client polls that object.

  Python \<^verbatim>\<open>bytes\<close> are lists of 8-bit words and Python \<^verbatim>\<open>int\<close> is \<open>int\<close>. The record is
  parametric in the representation \<open>'f\<close> of Python floats: the producer's arithmetic on
  timestamps is carried out on \<open>real\<close> (the exact values, rounding of the double arithmetic
  left out), the binary wire codec works on the IEEE-754 bit pattern of a double
  (\<open>64 word\<close>). The fields are the union of the fields of the four variants (v1 has no
  \<^verbatim>\<open>width\<close>/\<^verbatim>\<open>height\<close>, v4 has no \<^verbatim>\<open>fps\<close>, \<^verbatim>\<open>connected\<close>, \<^verbatim>\<open>width\<close>, \<^verbatim>\<open>height\<close>); the field
  \<^verbatim>\<open>connected\<close> is called \<open>connected_flag\<close> here. The lock is not a field: taking and
  releasing it are actions of the traces below.
\<close>

type_synonym byte = "8 word"
type_synonym bytes = "byte list"

record 'f VideoState =
  latest_frame :: "bytes option"
  frame_id :: int
  timestamp :: 'f
  fps :: 'f
  connected_flag :: bool
  frame_times :: "'f list"
  width :: int
  height :: int

text \<open>\<^verbatim>\<open>VideoState.__init__\<close>: no frame, id 0, an empty window.\<close>

definition VideoState_init :: "'f::zero VideoState" where
  "VideoState_init =
     \<lparr>latest_frame = None, frame_id = 0, timestamp = 0, fps = 0, connected_flag = False,
      frame_times = [], width = 0, height = 0\<rparr>"

section \<open>Producer\<close>

text \<open>
  \<^verbatim>\<open>deque(maxlen=30).append(x)\<close>: the item is appended on the right and, when the deque
  has grown beyond \<^verbatim>\<open>maxlen\<close>, one item is dropped on the left.
\<close>

definition deque_append :: "nat \<Rightarrow> 'a list \<Rightarrow> 'a \<Rightarrow> 'a list" where
  "deque_append maxlen xs x = (let ys = xs @ [x] in if length ys > maxlen then tl ys else ys)"

text \<open>
  The FPS lines of v1 (lines 116-119) and v2 (lines 125-128), after the append:
  \<^verbatim>\<open>if len(frame_times) >= 2: duration = frame_times[-1] - frame_times[0];
  if duration > 0: fps = (len(frame_times) - 1) / duration\<close>.
\<close>

definition update_fps :: "real VideoState \<Rightarrow> real VideoState" where
  "update_fps s =
     (let ft = frame_times s in
      if length ft \<ge> 2 then
        (let duration = last ft - hd ft in
         if duration > 0 then s\<lparr>fps := (real (length ft) - 1) / duration\<rparr> else s)
      else s)"

subsection \<open>v1: \<^verbatim>\<open>video_capture_thread\<close>\<close>

text \<open>
  What one iteration of the capture loop of v1 gets from OpenCV and the clock:
  \<^verbatim>\<open>cap.read()\<close> gives no frame (\<open>Read_failed\<close>), \<^verbatim>\<open>cv2.imencode\<close> reports no success
  (\<open>Encode_failed\<close>), or the frame is encoded to \<open>jpeg_bytes\<close> and \<^verbatim>\<open>time.time()\<close> returns
  \<open>current_time\<close>.
\<close>

datatype 'f capture_input = Read_failed | Encode_failed | Encoded bytes 'f

text \<open>The body of the \<^verbatim>\<open>with video_state.lock:\<close> block of v1 (lines 109-119).\<close>

definition store_frame_v1 :: "real VideoState \<Rightarrow> bytes \<Rightarrow> real \<Rightarrow> real VideoState" where
  "store_frame_v1 s jpeg_bytes current_time =
     update_fps
       (s\<lparr>latest_frame := Some jpeg_bytes,
          frame_id := frame_id s + 1,
          timestamp := current_time,
          frame_times := deque_append 30 (frame_times s) current_time\<rparr>)"

text \<open>One iteration of \<^verbatim>\<open>while True\<close> (lines 94-119); both failures \<^verbatim>\<open>continue\<close>.\<close>

fun capture_step :: "real VideoState \<Rightarrow> real capture_input \<Rightarrow> real VideoState" where
  "capture_step s Read_failed = s"
| "capture_step s Encode_failed = s"
| "capture_step s (Encoded jpeg_bytes current_time) = store_frame_v1 s jpeg_bytes current_time"

text \<open>The loop over the samples that arrive: a finite prefix of the endless loop.\<close>

fun capture_loop :: "real VideoState \<Rightarrow> real capture_input list \<Rightarrow> real VideoState" where
  "capture_loop s [] = s"
| "capture_loop s (i # ins) = capture_loop (capture_step s i) ins"

text \<open>
  \<^verbatim>\<open>video_capture_thread\<close>: when \<^verbatim>\<open>cap.isOpened()\<close> is false the thread sets
  \<^verbatim>\<open>connected = False\<close> and returns; otherwise it sets \<^verbatim>\<open>connected = True\<close> and loops.
\<close>

definition video_capture_thread ::
  "bool \<Rightarrow> real capture_input list \<Rightarrow> real VideoState \<Rightarrow> real VideoState" where
  "video_capture_thread opened ins s =
     (if \<not> opened then s\<lparr>connected_flag := False\<rparr>
      else capture_loop (s\<lparr>connected_flag := True\<rparr>) ins)"

fun is_Encoded :: "'f capture_input \<Rightarrow> bool" where
  "is_Encoded (Encoded _ _) = True"
| "is_Encoded _ = False"

fun encoded_times :: "'f capture_input list \<Rightarrow> 'f list" where
  "encoded_times [] = []"
| "encoded_times (Encoded _ t # ins) = t # encoded_times ins"
| "encoded_times (_ # ins) = encoded_times ins"

subsection \<open>v2: \<^verbatim>\<open>GO2VideoReceiver.on_new_sample\<close> and \<^verbatim>\<open>on_bus_message\<close>\<close>

text \<open>
  What one call of \<^verbatim>\<open>on_new_sample\<close> of v2 gets from GStreamer, PIL and the clock:
  \<^verbatim>\<open>pull-sample\<close> gives \<^verbatim>\<open>None\<close>; \<^verbatim>\<open>buffer.map\<close> fails; \<^verbatim>\<open>Image.frombytes\<close> or
  \<^verbatim>\<open>image.save\<close> raises (the exception leaves the callback through the \<^verbatim>\<open>finally\<close>); or
  the frame of size \<open>width\<close> x \<open>height\<close> is encoded and the two calls of \<^verbatim>\<open>time.time()\<close>
  (lines 118 and 124) return \<open>t1\<close> and \<open>t2\<close>.
\<close>

datatype 'f sample_input =
    No_sample
  | Map_failed
  | Encode_raised
  | Jpeg int int bytes 'f 'f

datatype flow_return = Flow_OK | Flow_ERROR | Flow_raised

text \<open>The body of the \<^verbatim>\<open>with video_state.lock:\<close> block of v2 (lines 115-128).\<close>

definition store_frame_v2 ::
  "real VideoState \<Rightarrow> int \<Rightarrow> int \<Rightarrow> bytes \<Rightarrow> real \<Rightarrow> real \<Rightarrow> real VideoState" where
  "store_frame_v2 s w h jpeg_bytes t1 t2 =
     update_fps
       (s\<lparr>latest_frame := Some jpeg_bytes,
          frame_id := frame_id s + 1,
          timestamp := t1,
          width := w,
          height := h,
          connected_flag := True,
          frame_times := deque_append 30 (frame_times s) t2\<rparr>)"

fun on_new_sample :: "real VideoState \<Rightarrow> real sample_input \<Rightarrow> flow_return \<times> real VideoState" where
  "on_new_sample s No_sample = (Flow_ERROR, s)"
| "on_new_sample s Map_failed = (Flow_ERROR, s)"
| "on_new_sample s Encode_raised = (Flow_raised, s)"
| "on_new_sample s (Jpeg w h jpeg_bytes t1 t2) = (Flow_OK, store_frame_v2 s w h jpeg_bytes t1 t2)"

datatype bus_message = Msg_ERROR | Msg_WARNING | Msg_EOS | Msg_STATE_CHANGED | Msg_other

fun on_bus_message :: "'f VideoState \<Rightarrow> bus_message \<Rightarrow> 'f VideoState" where
  "on_bus_message s Msg_ERROR = s\<lparr>connected_flag := False\<rparr>"
| "on_bus_message s Msg_EOS = s\<lparr>connected_flag := False\<rparr>"
| "on_bus_message s _ = s"

text \<open>The callbacks GStreamer makes on the receiver of v2, in the order they happen.\<close>

datatype 'f receiver_event = New_sample "'f sample_input" | Bus "bus_message"

fun receiver_step :: "real VideoState \<Rightarrow> real receiver_event \<Rightarrow> real VideoState" where
  "receiver_step s (New_sample i) = snd (on_new_sample s i)"
| "receiver_step s (Bus m) = on_bus_message s m"

fun receiver_run :: "real VideoState \<Rightarrow> real receiver_event list \<Rightarrow> real VideoState" where
  "receiver_run s [] = s"
| "receiver_run s (e # es) = receiver_run (receiver_step s e) es"

fun is_Jpeg :: "'f receiver_event \<Rightarrow> bool" where
  "is_Jpeg (New_sample (Jpeg _ _ _ _ _)) = True"
| "is_Jpeg _ = False"

fun jpeg_times :: "'f receiver_event list \<Rightarrow> 'f list" where
  "jpeg_times [] = []"
| "jpeg_times (New_sample (Jpeg _ _ _ _ t2) # es) = t2 # jpeg_times es"
| "jpeg_times (_ # es) = jpeg_times es"

section \<open>Properties of the producer\<close>

lemma frame_id_update_fps [simp]: "frame_id (update_fps s) = frame_id s"
  by (simp add: update_fps_def Let_def)

lemma latest_frame_update_fps [simp]: "latest_frame (update_fps s) = latest_frame s"
  by (simp add: update_fps_def Let_def)

lemma frame_times_update_fps [simp]: "frame_times (update_fps s) = frame_times s"
  by (simp add: update_fps_def Let_def)

lemma frame_id_capture_step:
  "frame_id (capture_step s i) = frame_id s + (if is_Encoded i then 1 else 0)"
  by (cases i) (simp_all add: store_frame_v1_def)

lemma frame_id_capture_loop:
  "frame_id (capture_loop s ins) = frame_id s + int (length (filter is_Encoded ins))"
  by (induction ins arbitrary: s) (simp_all add: frame_id_capture_step)

lemma frame_id_receiver_step:
  "frame_id (receiver_step s e) = frame_id s + (if is_Jpeg e then 1 else 0)"
proof (cases e)
  case (New_sample i)
  then show ?thesis by (cases i) (simp_all add: store_frame_v2_def)
next
  case (Bus m)
  then show ?thesis by (cases m) simp_all
qed

lemma frame_id_receiver_run:
  "frame_id (receiver_run s es) = frame_id s + int (length (filter is_Jpeg es))"
  by (induction es arbitrary: s) (simp_all add: frame_id_receiver_step)

text \<open>
  C1. The frame id is 0 before the first frame; each produced frame is stored together
  with the id \<open>previous + 1\<close>, so the first produced frame has id 1; after any run of the
  producer (v1: capture loop, v2: GStreamer callbacks, bus messages included) the id is the
  number of frames produced so far, and it never decreases along a run.
\<close>

theorem frame_id_counts_productions:
  "frame_id (VideoState_init :: real VideoState) = 0
   \<and> latest_frame (VideoState_init :: real VideoState) = None
   \<and> frame_id (capture_step s (Encoded jpeg t)) = frame_id s + 1
   \<and> latest_frame (capture_step s (Encoded jpeg t)) = Some jpeg
   \<and> frame_id (video_capture_thread True ins VideoState_init) = int (length (filter is_Encoded ins))
   \<and> frame_id (capture_loop s ins) \<le> frame_id (capture_loop s (ins @ ins'))
   \<and> frame_id (snd (on_new_sample s (Jpeg w h jpeg t1 t2))) = frame_id s + 1
   \<and> latest_frame (snd (on_new_sample s (Jpeg w h jpeg t1 t2))) = Some jpeg
   \<and> frame_id (receiver_run VideoState_init es) = int (length (filter is_Jpeg es))
   \<and> frame_id (receiver_run s es) \<le> frame_id (receiver_run s (es @ es'))"
proof -
  have a: "frame_id (video_capture_thread True ins VideoState_init)
             = int (length (filter is_Encoded ins))"
    by (simp add: video_capture_thread_def frame_id_capture_loop VideoState_init_def)
  have b: "frame_id (capture_loop s ins) \<le> frame_id (capture_loop s (ins @ ins'))"
    by (simp add: frame_id_capture_loop)
  have c: "frame_id (receiver_run VideoState_init es) = int (length (filter is_Jpeg es))"
    by (simp add: frame_id_receiver_run VideoState_init_def)
  have d: "frame_id (receiver_run s es) \<le> frame_id (receiver_run s (es @ es'))"
    by (simp add: frame_id_receiver_run)
  show ?thesis
    using a b c d by (simp add: VideoState_init_def store_frame_v1_def store_frame_v2_def)
qed

text \<open>
  C4. A sample whose JPEG encoding fails (\<^verbatim>\<open>if not success: continue\<close>, v1 lines 102-104)
  leaves the whole shared state as it was: the frame id, the stored frame and the FPS window
  are those of before, and the loop goes on with the samples that follow, wherever in the
  run the failure happens.
\<close>

theorem encode_failure_keeps_state:
  "capture_step s Encode_failed = s
   \<and> frame_id (capture_step s Encode_failed) = frame_id s
   \<and> latest_frame (capture_step s Encode_failed) = latest_frame s
   \<and> frame_times (capture_step s Encode_failed) = frame_times s
   \<and> capture_loop s (before @ Encode_failed # after) = capture_loop s (before @ after)"
proof -
  have "capture_loop s (before @ Encode_failed # after) = capture_loop s (before @ after)"
    by (induction before arbitrary: s) simp_all
  then show ?thesis by simp
qed

subsection \<open>The FPS window\<close>

text \<open>The last 30 entries of a list of timestamps.\<close>

definition last30 :: "'a list \<Rightarrow> 'a list" where
  "last30 ts = drop (length ts - 30) ts"

lemma length_last30: "length (last30 ts) \<le> 30"
  by (simp add: last30_def)

lemma length_last30_eq: "length (last30 ts) = min (length ts) 30"
  unfolding last30_def length_drop by arith

lemma deque_append_last30: "deque_append 30 (last30 ts) t = last30 (ts @ [t])"
proof (cases "length ts < 30")
  case True
  then show ?thesis by (simp add: deque_append_def last30_def)
next
  case False
  define k where "k = length ts - 30"
  have k: "Suc (length ts) - 30 = Suc k" "k < length ts" "length ts - k = 30"
    using False by (simp_all add: k_def)
  have ne: "drop k ts \<noteq> []"
    using k(2) by simp
  have "tl (drop k ts @ [t]) = tl (drop k ts) @ [t]"
    using ne by (cases "drop k ts") simp_all
  also have "\<dots> = drop (Suc k) ts @ [t]"
    by (simp add: tl_drop drop_Suc)
  also have "\<dots> = drop (Suc k) (ts @ [t])"
    using k(2) by simp
  finally have "tl (drop k ts @ [t]) = drop (Suc k) (ts @ [t])" .
  then show ?thesis
    using k by (simp add: deque_append_def last30_def k_def [symmetric])
qed

text \<open>
  What the producers keep true of the window and the rate: the window is the last 30 of the
  timestamps appended so far (\<open>ts\<close>); the rate is 0 while the window holds fewer than two
  timestamps; the rate is \<open>(count - 1) / (newest - oldest)\<close> when it holds at least two
  and the newest is later than the oldest.
\<close>

definition fps_window_ok :: "real list \<Rightarrow> real VideoState \<Rightarrow> bool" where
  "fps_window_ok ts s =
     (frame_times s = last30 ts
      \<and> (if length (frame_times s) < 2 then fps s = 0
         else if hd (frame_times s) < last (frame_times s)
              then fps s = (real (length (frame_times s)) - 1)
                             / (last (frame_times s) - hd (frame_times s))
              else True))"

lemma fps_window_ok_init: "fps_window_ok [] VideoState_init"
  by (simp add: fps_window_ok_def VideoState_init_def last30_def)

lemma last30_nonempty: "last30 (ts @ [t]) \<noteq> []"
  by (simp add: last30_def)

lemma fps_window_ok_append:
  assumes "fps_window_ok ts s"
    and "frame_times s' = deque_append 30 (frame_times s) t"
    and "fps s' = fps s"
  shows "fps_window_ok (ts @ [t]) (update_fps s')"
proof -
  have w: "frame_times s' = last30 (ts @ [t])"
    using assms(1,2) by (simp add: fps_window_ok_def deque_append_last30)
  have z: "length (frame_times s') < 2 \<Longrightarrow> fps s' = 0"
  proof -
    assume "length (frame_times s') < 2"
    then have "min (length (ts @ [t])) 30 < 2"
      using w by (simp only: length_last30_eq)
    then have "length ts = 0"
      by (simp add: min_def split: if_splits)
    then show "fps s' = 0"
      using assms(1,3) by (simp add: fps_window_ok_def last30_def)
  qed
  show ?thesis
    using w z by (auto simp: fps_window_ok_def update_fps_def Let_def)
qed

lemma fps_window_ok_capture_step:
  "fps_window_ok ts s \<Longrightarrow>
   fps_window_ok (ts @ encoded_times [i]) (capture_step s i)"
  by (cases i) (simp_all add: store_frame_v1_def fps_window_ok_append)

lemma encoded_times_append:
  "encoded_times (xs @ ys) = encoded_times xs @ encoded_times ys"
  by (induction xs rule: encoded_times.induct) simp_all

lemma fps_window_ok_capture_loop:
  "fps_window_ok ts s \<Longrightarrow> fps_window_ok (ts @ encoded_times ins) (capture_loop s ins)"
proof (induction ins arbitrary: ts s)
  case Nil
  then show ?case by simp
next
  case (Cons i ins)
  have "fps_window_ok (ts @ encoded_times [i]) (capture_step s i)"
    using Cons.prems by (rule fps_window_ok_capture_step)
  from Cons.IH [OF this] show ?case
    using encoded_times_append [of "[i]" ins] by simp
qed

lemma fps_window_ok_receiver_step:
  "fps_window_ok ts s \<Longrightarrow> fps_window_ok (ts @ jpeg_times [e]) (receiver_step s e)"
proof (cases e)
  case (New_sample i)
  assume "fps_window_ok ts s"
  with New_sample show ?thesis
    by (cases i) (simp_all add: store_frame_v2_def fps_window_ok_append)
next
  case (Bus m)
  assume "fps_window_ok ts s"
  with Bus show ?thesis
    by (cases m) (simp_all add: fps_window_ok_def)
qed

lemma jpeg_times_append: "jpeg_times (xs @ ys) = jpeg_times xs @ jpeg_times ys"
  by (induction xs rule: jpeg_times.induct) simp_all

lemma fps_window_ok_receiver_run:
  "fps_window_ok ts s \<Longrightarrow> fps_window_ok (ts @ jpeg_times es) (receiver_run s es)"
proof (induction es arbitrary: ts s)
  case Nil
  then show ?case by simp
next
  case (Cons e es)
  have "fps_window_ok (ts @ jpeg_times [e]) (receiver_step s e)"
    using Cons.prems by (rule fps_window_ok_receiver_step)
  from Cons.IH [OF this] show ?case
    using jpeg_times_append [of "[e]" es] by simp
qed

text \<open>Ten frames stamped 0.0, 0.1, ..., 0.9, and three frames stamped 2, 3, 1.\<close>

definition ten_frames :: "real capture_input list" where
  "ten_frames =
     [Encoded [] 0, Encoded [] (1/10), Encoded [] (2/10), Encoded [] (3/10), Encoded [] (4/10),
      Encoded [] (5/10), Encoded [] (6/10), Encoded [] (7/10), Encoded [] (8/10),
      Encoded [] (9/10)]"

definition clock_set_back :: "real capture_input list" where
  "clock_set_back = [Encoded [] 2, Encoded [] 3, Encoded [] 1]"

lemma fps_window_ok_thread:
  "fps_window_ok (encoded_times ins) (video_capture_thread True ins VideoState_init)"
proof -
  have "fps_window_ok [] ((VideoState_init :: real VideoState)\<lparr>connected_flag := True\<rparr>)"
    by (simp add: fps_window_ok_def VideoState_init_def last30_def)
  from fps_window_ok_capture_loop [OF this, of ins] show ?thesis
    by (simp add: video_capture_thread_def)
qed

lemma fps_window_ok_receiver:
  "fps_window_ok (jpeg_times es) (receiver_run VideoState_init es)"
  using fps_window_ok_receiver_run [OF fps_window_ok_init, of es] by simp

lemma fps_kept_update_fps:
  "last (frame_times s) \<le> hd (frame_times s) \<Longrightarrow> fps (update_fps s) = fps s"
  by (simp add: update_fps_def Let_def)

lemmas producer_eval =
  video_capture_thread_def VideoState_init_def store_frame_v1_def store_frame_v2_def
  deque_append_def update_fps_def Let_def

text \<open>
  C5, as stated, fails: with the three frames stamped 2, 3 and 1 (\<^verbatim>\<open>time.time()\<close> may go
  back when the system clock is set back) the window holds three timestamps, the formula
  \<open>(count - 1) / (newest - oldest)\<close> gives \<open>-2\<close>, and the rate is still the 1 computed
  from the first two frames, because of the guard \<^verbatim>\<open>if duration > 0\<close>.
\<close>

theorem fps_rate_formula_counterexample:
  "frame_times (video_capture_thread True clock_set_back VideoState_init) = [2, 3, 1]
   \<and> 2 \<le> length (frame_times (video_capture_thread True clock_set_back VideoState_init))
   \<and> (real (length (frame_times (video_capture_thread True clock_set_back VideoState_init))) - 1)
        / (last (frame_times (video_capture_thread True clock_set_back VideoState_init))
           - hd (frame_times (video_capture_thread True clock_set_back VideoState_init))) = - 2
   \<and> fps (video_capture_thread True clock_set_back VideoState_init) = 1"
  by (simp add: clock_set_back_def producer_eval)

text \<open>
  C5, amended. The window holds at most 30 timestamps, the last 30 appended (the oldest is
  dropped when it is full). After any run from the initial state, v1 or v2: the rate is 0
  while the window holds fewer than two timestamps, and it is
  \<open>(count - 1) / (newest - oldest)\<close> when the window holds at least two and the newest is
  later than the oldest. A frame that leaves the newest not later than the oldest keeps the
  rate of before. For the ten timestamps 0.0, 0.1, ..., 0.9 the rate is 10, within the
  tolerance 0.05 (timestamps are exact reals here).
\<close>

theorem fps_rate_of_window:
  "length (frame_times (video_capture_thread True ins VideoState_init)) \<le> 30
   \<and> frame_times (video_capture_thread True ins VideoState_init) = last30 (encoded_times ins)
   \<and> (length (frame_times (video_capture_thread True ins VideoState_init)) < 2 \<longrightarrow>
        fps (video_capture_thread True ins VideoState_init) = 0)
   \<and> (2 \<le> length (frame_times (video_capture_thread True ins VideoState_init))
        \<and> hd (frame_times (video_capture_thread True ins VideoState_init))
            < last (frame_times (video_capture_thread True ins VideoState_init)) \<longrightarrow>
        fps (video_capture_thread True ins VideoState_init)
          = (real (length (frame_times (video_capture_thread True ins VideoState_init))) - 1)
              / (last (frame_times (video_capture_thread True ins VideoState_init))
                 - hd (frame_times (video_capture_thread True ins VideoState_init))))
   \<and> (last (frame_times (capture_step s (Encoded jpeg t)))
          \<le> hd (frame_times (capture_step s (Encoded jpeg t))) \<longrightarrow>
        fps (capture_step s (Encoded jpeg t)) = fps s)
   \<and> length (frame_times (receiver_run VideoState_init es)) \<le> 30
   \<and> frame_times (receiver_run VideoState_init es) = last30 (jpeg_times es)
   \<and> (length (frame_times (receiver_run VideoState_init es)) < 2 \<longrightarrow>
        fps (receiver_run VideoState_init es) = 0)
   \<and> (2 \<le> length (frame_times (receiver_run VideoState_init es))
        \<and> hd (frame_times (receiver_run VideoState_init es))
            < last (frame_times (receiver_run VideoState_init es)) \<longrightarrow>
        fps (receiver_run VideoState_init es)
          = (real (length (frame_times (receiver_run VideoState_init es))) - 1)
              / (last (frame_times (receiver_run VideoState_init es))
                 - hd (frame_times (receiver_run VideoState_init es))))
   \<and> (last (frame_times (snd (on_new_sample s (Jpeg w h jpeg t1 t2))))
          \<le> hd (frame_times (snd (on_new_sample s (Jpeg w h jpeg t1 t2)))) \<longrightarrow>
        fps (snd (on_new_sample s (Jpeg w h jpeg t1 t2))) = fps s)
   \<and> fps (video_capture_thread True ten_frames VideoState_init) = 10
   \<and> \<bar>fps (video_capture_thread True ten_frames VideoState_init) - 10\<bar> \<le> 5 / 100"
proof -
  have v1: "fps_window_ok (encoded_times ins) (video_capture_thread True ins VideoState_init)"
    by (rule fps_window_ok_thread)
  have v2: "fps_window_ok (jpeg_times es) (receiver_run VideoState_init es)"
    by (rule fps_window_ok_receiver)
  have k1: "last (frame_times (capture_step s (Encoded jpeg t)))
              \<le> hd (frame_times (capture_step s (Encoded jpeg t))) \<longrightarrow>
            fps (capture_step s (Encoded jpeg t)) = fps s"
    using fps_kept_update_fps by (auto simp: store_frame_v1_def)
  have k2: "last (frame_times (snd (on_new_sample s (Jpeg w h jpeg t1 t2))))
              \<le> hd (frame_times (snd (on_new_sample s (Jpeg w h jpeg t1 t2)))) \<longrightarrow>
            fps (snd (on_new_sample s (Jpeg w h jpeg t1 t2))) = fps s"
    using fps_kept_update_fps by (auto simp: store_frame_v2_def)
  have ten: "fps (video_capture_thread True ten_frames VideoState_init) = 10"
    by (simp add: ten_frames_def producer_eval)
  have a: "length (frame_times (video_capture_thread True ins VideoState_init)) \<le> 30"
    using v1 by (simp add: fps_window_ok_def length_last30)
  have b: "length (frame_times (receiver_run VideoState_init es)) \<le> 30"
    using v2 by (simp add: fps_window_ok_def length_last30)
  show ?thesis
    using v1 v2 k1 k2 ten a b
    by (simp add: fps_window_ok_def split: if_splits)
qed

text \<open>
  The amended statement at concrete runs: the ten frames (two timestamps or more, newest
  later than oldest), one frame alone (fewer than two timestamps), and the frame stamped 1
  after the frames stamped 2 and 3 (newest not later than oldest: the rate stays 1).
\<close>

theorem fps_rate_of_window_witness:
  "2 \<le> length (frame_times (video_capture_thread True ten_frames VideoState_init))
   \<and> hd (frame_times (video_capture_thread True ten_frames VideoState_init))
       < last (frame_times (video_capture_thread True ten_frames VideoState_init))
   \<and> fps (video_capture_thread True ten_frames VideoState_init) = (10 - 1) / (9 / 10 - 0)
   \<and> length (frame_times (video_capture_thread True [Encoded [] 5] VideoState_init)) < 2
   \<and> fps (video_capture_thread True [Encoded [] 5] VideoState_init) = 0
   \<and> last (frame_times (capture_step (capture_loop VideoState_init [Encoded [] 2, Encoded [] 3])
                          (Encoded [] 1)))
       \<le> hd (frame_times (capture_step (capture_loop VideoState_init [Encoded [] 2, Encoded [] 3])
                          (Encoded [] 1)))
   \<and> fps (capture_step (capture_loop VideoState_init [Encoded [] 2, Encoded [] 3]) (Encoded [] 1))
       = 1"
proof -
  have ft: "frame_times (video_capture_thread True ten_frames VideoState_init)
              = [0, 1/10, 2/10, 3/10, 4/10, 5/10, 6/10, 7/10, 8/10, 9/10]"
    by (simp add: ten_frames_def producer_eval)
  have one: "frame_times (video_capture_thread True [Encoded [] 5] VideoState_init) = [5]"
    by (simp add: producer_eval)
  have three: "frame_times (capture_step (capture_loop VideoState_init [Encoded [] 2, Encoded [] 3])
                 (Encoded [] 1)) = [2, 3, 1]"
    by (simp add: producer_eval)
  have before: "fps (capture_loop VideoState_init [Encoded [] 2, Encoded [] 3]) = 1"
    by (simp add: producer_eval)
  have a: "fps (video_capture_thread True ten_frames VideoState_init) = (10 - 1) / (9 / 10 - 0)"
    using fps_rate_of_window [where ins = ten_frames] by (simp add: ft)
  have b: "fps (video_capture_thread True [Encoded [] 5] VideoState_init) = 0"
    using fps_rate_of_window [where ins = "[Encoded [] 5]"] by (simp add: one)
  have c: "fps (capture_step (capture_loop VideoState_init [Encoded [] 2, Encoded [] 3]) (Encoded [] 1))
       = 1"
    using fps_rate_of_window
        [where s = "capture_loop VideoState_init [Encoded [] 2, Encoded [] 3]" and jpeg = "[]" and t = 1]
    by (simp only: three before) simp
  show ?thesis
    by (simp only: a b c ft one three) simp
qed

section \<open>Wire codec of v3 and v4\<close>

text \<open>
  v3 (line 249) and v4 (line 183) build the header of a binary frame message with
  \<^verbatim>\<open>struct.pack('<I d f', frame_id, timestamp, fps)\<close>: little-endian, no padding, an
  unsigned 32-bit integer, a double and a float. A Python float is an IEEE-754 double,
  given here by its 64-bit pattern. A number is laid out in \<open>k\<close> bytes, low byte first.
\<close>

datatype pack_error = StructError | OverflowError

fun le_bytes :: "nat \<Rightarrow> nat \<Rightarrow> bytes" where
  "le_bytes 0 v = []"
| "le_bytes (Suc k) v = word_of_nat (v mod 256) # le_bytes k (v div 256)"

fun le_value :: "bytes \<Rightarrow> nat" where
  "le_value [] = 0"
| "le_value (b # bs) = unat b + 256 * le_value bs"

text \<open>
  Format \<^verbatim>\<open>I\<close>: \<^verbatim>\<open>struct.error\<close> unless \<open>0 \<le> n < 2^32\<close>. Format \<^verbatim>\<open>d\<close>: the eight bytes
  of the double.
\<close>

definition pack_I :: "int \<Rightarrow> pack_error + bytes" where
  "pack_I n = (if 0 \<le> n \<and> n < 2 ^ 32 then Inr (le_bytes 4 (nat n)) else Inl StructError)"

definition pack_d :: "64 word \<Rightarrow> bytes" where
  "pack_d x = le_bytes 8 (unat x)"

text \<open>
  Format \<^verbatim>\<open>f\<close> converts the double to single precision, rounding to nearest, ties to
  even, and raises \<^verbatim>\<open>OverflowError\<close> when a finite double rounds to infinity.
  \<open>round_half_even m k\<close> is \<open>m / 2^k\<close> rounded so (\<open>k \<ge> 1\<close>). In \<open>double_to_single\<close> the
  double has sign bit \<open>s\<close>, biased exponent \<open>e\<close> and fraction \<open>m\<close>; a normal double is
  \<open>(2^52 + m) * 2^(e - 1075)\<close>. For \<open>e \<ge> 897\<close> the single is normal: 29 bits are rounded
  away, and a carry out of the significand moves into the exponent field by itself. For
  \<open>e < 897\<close> the single is subnormal (or zero) and \<open>897 - e\<close> more bits are rounded away.
  Zeros and subnormal doubles give a signed zero, infinities stay, a NaN gives a quiet NaN.
\<close>

definition round_half_even :: "nat \<Rightarrow> nat \<Rightarrow> nat" where
  "round_half_even m k =
     (let q = m div 2 ^ k; r = m mod 2 ^ k; h = 2 ^ (k - 1)
      in if r > h \<or> (r = h \<and> odd q) then q + 1 else q)"

definition double_to_single :: "64 word \<Rightarrow> pack_error + 32 word" where
  "double_to_single x =
     (let s = (unat x div 2 ^ 63) * 2 ^ 31;
          e = (unat x div 2 ^ 52) mod 2 ^ 11;
          m = unat x mod 2 ^ 52
      in if e = 2047 then
           Inr (word_of_nat
                 (s + 255 * 2 ^ 23 + (if m = 0 then 0 else 2 ^ 22 + (m div 2 ^ 29) mod 2 ^ 22)))
         else if e = 0 then Inr (word_of_nat s)
         else
           (let b = (e - 897) * 2 ^ 23 + round_half_even (2 ^ 52 + m) (29 + (897 - e))
            in if b \<ge> 255 * 2 ^ 23 then Inl OverflowError else Inr (word_of_nat (s + b))))"

definition pack_f :: "64 word \<Rightarrow> pack_error + bytes" where
  "pack_f x = (case double_to_single x of Inl e \<Rightarrow> Inl e | Inr y \<Rightarrow> Inr (le_bytes 4 (unat y)))"

text \<open>The arguments are packed in order; the first one that fails raises.\<close>

definition struct_pack_Idf :: "int \<Rightarrow> 64 word \<Rightarrow> 64 word \<Rightarrow> pack_error + bytes" where
  "struct_pack_Idf n t f =
     (case pack_I n of
        Inl e \<Rightarrow> Inl e
      | Inr a \<Rightarrow> (case pack_f f of Inl e \<Rightarrow> Inl e | Inr c \<Rightarrow> Inr (a @ pack_d t @ c)))"

text \<open>\<^verbatim>\<open>header = struct.pack(...); message = header + frame_data\<close>.\<close>

definition frame_message :: "int \<Rightarrow> 64 word \<Rightarrow> 64 word \<Rightarrow> bytes \<Rightarrow> pack_error + bytes" where
  "frame_message n t f frame_data =
     (case struct_pack_Idf n t f of Inl e \<Rightarrow> Inl e | Inr header \<Rightarrow> Inr (header @ frame_data))"

text \<open>
  Modelled from the spec: the decoder of the header is not among the four scripts (the
  consumer is the browser). Section 4.6 of the specification fixes the layout: the frame id
  in bytes 0-3 (unsigned, little-endian), the timestamp as a double in bytes 4-11, the rate
  as a single-precision float in bytes 12-15. The decoder reads the three fields back as
  the integer and the two bit patterns.
\<close>

definition struct_unpack_Idf :: "bytes \<Rightarrow> (int \<times> 64 word \<times> 32 word) option" where
  "struct_unpack_Idf b =
     (if length b = 16
      then Some (int (le_value (take 4 b)), word_of_nat (le_value (take 8 (drop 4 b))),
                 word_of_nat (le_value (drop 12 b)))
      else None)"

text \<open>The number a finite bit pattern stands for; \<open>None\<close> for infinities and NaNs.\<close>

definition valof64 :: "64 word \<Rightarrow> real option" where
  "valof64 x =
     (let sg = (if unat x div 2 ^ 63 = 1 then - 1 else 1);
          e = (unat x div 2 ^ 52) mod 2 ^ 11;
          m = unat x mod 2 ^ 52
      in if e = 2047 then None
         else if e = 0 then Some (sg * real m / 2 ^ 1074)
         else if e \<ge> 1075 then Some (sg * real (2 ^ 52 + m) * 2 ^ (e - 1075))
         else Some (sg * real (2 ^ 52 + m) / 2 ^ (1075 - e)))"

definition valof32 :: "32 word \<Rightarrow> real option" where
  "valof32 x =
     (let sg = (if unat x div 2 ^ 31 = 1 then - 1 else 1);
          e = (unat x div 2 ^ 23) mod 2 ^ 8;
          m = unat x mod 2 ^ 23
      in if e = 255 then None
         else if e = 0 then Some (sg * real m / 2 ^ 149)
         else if e \<ge> 150 then Some (sg * real (2 ^ 23 + m) * 2 ^ (e - 150))
         else Some (sg * real (2 ^ 23 + m) / 2 ^ (150 - e)))"

subsection \<open>Properties of the codec\<close>

lemma length_le_bytes [simp]: "length (le_bytes k v) = k"
  by (induction k arbitrary: v) simp_all

lemma le_value_le_bytes: "le_value (le_bytes k v) = v mod 256 ^ k"
proof (induction k arbitrary: v)
  case 0
  then show ?case by simp
next
  case (Suc k)
  have "unat (word_of_nat (v mod 256) :: byte) = v mod 256"
    by (simp add: unat_of_nat)
  then show ?case
    by (simp add: Suc.IH mod_mult2_eq)
qed

lemma le_value_le_bytes_4: "v < 2 ^ 32 \<Longrightarrow> le_value (le_bytes 4 v) = v"
  by (simp add: le_value_le_bytes)

lemma word_of_le_bytes_8: "word_of_nat (le_value (le_bytes 8 (unat (t :: 64 word)))) = t"
proof -
  have "unat t < 2 ^ 64"
    using unsigned_less [of t, where ?'a = nat] by simp
  then show ?thesis
    by (simp add: le_value_le_bytes)
qed

lemma word_of_le_bytes_4: "word_of_nat (le_value (le_bytes 4 (unat (y :: 32 word)))) = y"
proof -
  have "unat y < 2 ^ 32"
    using unsigned_less [of y, where ?'a = nat] by simp
  then show ?thesis
    by (simp add: le_value_le_bytes)
qed

lemma struct_pack_Idf_Inr:
  assumes "struct_pack_Idf n t f = Inr header"
  shows "0 \<le> n \<and> n < 2 ^ 32
         \<and> (\<exists>y. double_to_single f = Inr y
                \<and> header = le_bytes 4 (nat n) @ le_bytes 8 (unat t) @ le_bytes 4 (unat y))"
  using assms
  by (auto simp: struct_pack_Idf_def pack_I_def pack_f_def pack_d_def
      split: if_splits sum.splits)

lemma struct_unpack_pack:
  assumes "0 \<le> n" "n < 2 ^ 32"
  shows "struct_unpack_Idf (le_bytes 4 (nat n) @ le_bytes 8 (unat t) @ le_bytes 4 (unat y))
           = Some (n, t, y)"
proof -
  have "nat n < 2 ^ 32"
    using assms by (simp add: nat_less_iff)
  then have "int (le_value (le_bytes 4 (nat n))) = n"
    using assms(1) by (simp add: le_value_le_bytes_4)
  then show ?thesis
    by (simp add: struct_unpack_Idf_def word_of_le_bytes_8 word_of_le_bytes_4)
qed

lemma struct_pack_Idf_StructError:
  "n < 0 \<or> 2 ^ 32 \<le> n \<Longrightarrow> struct_pack_Idf n t f = Inl StructError"
  by (auto simp: struct_pack_Idf_def pack_I_def)

lemma frame_message_Inr:
  assumes "frame_message n t f frame_data = Inr msg"
  shows "\<exists>header. struct_pack_Idf n t f = Inr header \<and> msg = header @ frame_data"
  using assms by (auto simp: frame_message_def split: sum.splits)

lemma le_bytes_numeral:
  "le_bytes (numeral k) v = word_of_nat (v mod 256) # le_bytes (pred_numeral k) (v div 256)"
  by (simp only: numeral_eq_Suc [of k] le_bytes.simps)

lemmas codec_eval =
  struct_pack_Idf_def pack_I_def pack_f_def pack_d_def double_to_single_def
  round_half_even_def frame_message_def Let_def le_bytes_numeral

text \<open>
  C3. A binary frame message is the 16-byte header followed at once by the payload: bytes
  0-3 the frame id (unsigned 32-bit, little-endian), bytes 4-11 the timestamp (a double),
  bytes 12-15 the rate converted to single precision; reading the header back gives the
  same integer, the same double and the single the rate was rounded to. For frame id 42,
  timestamp 1700000000.5 (the double 41D954FC40200000) and rate 29.7 (the nearest double,
  403DB33333333333) the header decodes to 42, the same double, and the single 41ED999A,
  whose value 29.700000762939453 is within half a unit in the last place (\<open>2^-20\<close>) of 29.7.
\<close>

theorem frame_message_layout:
  "(frame_message n t f frame_data = Inr msg \<longrightarrow>
      (\<exists>y. double_to_single f = Inr y
         \<and> take 16 msg = le_bytes 4 (nat n) @ le_bytes 8 (unat t) @ le_bytes 4 (unat y)
         \<and> drop 16 msg = frame_data
         \<and> length msg = 16 + length frame_data
         \<and> struct_unpack_Idf (take 16 msg) = Some (n, t, y)))
   \<and> struct_pack_Idf 42 0x41D954FC40200000 0x403DB33333333333
       = Inr [0x2A, 0, 0, 0, 0, 0, 0x20, 0x40, 0xFC, 0x54, 0xD9, 0x41, 0x9A, 0x99, 0xED, 0x41]
   \<and> struct_unpack_Idf
         [0x2A, 0, 0, 0, 0, 0, 0x20, 0x40, 0xFC, 0x54, 0xD9, 0x41, 0x9A, 0x99, 0xED, 0x41]
       = Some (42, 0x41D954FC40200000, 0x41ED999A)
   \<and> valof64 0x41D954FC40200000 = Some (17000000005 / 10)
   \<and> valof64 0x403DB33333333333 = Some (8359806808306483 / 281474976710656)
   \<and> \<bar>8359806808306483 / 281474976710656 - 297 / 10\<bar> \<le> (1 / 2 ^ 49 :: real)
   \<and> valof32 0x41ED999A = Some (15571354 / 524288)
   \<and> \<bar>15571354 / 524288 - 297 / 10\<bar> \<le> (1 / 2 ^ 20 :: real)"
proof -
  have general: "\<exists>y. double_to_single f = Inr y
         \<and> take 16 msg = le_bytes 4 (nat n) @ le_bytes 8 (unat t) @ le_bytes 4 (unat y)
         \<and> drop 16 msg = frame_data
         \<and> length msg = 16 + length frame_data
         \<and> struct_unpack_Idf (take 16 msg) = Some (n, t, y)"
    if "frame_message n t f frame_data = Inr msg"
  proof -
    from that obtain header where h: "struct_pack_Idf n t f = Inr header"
      and m: "msg = header @ frame_data"
      using frame_message_Inr by blast
    from struct_pack_Idf_Inr [OF h] obtain y where r: "0 \<le> n" "n < 2 ^ 32"
      and y: "double_to_single f = Inr y"
      and hd: "header = le_bytes 4 (nat n) @ le_bytes 8 (unat t) @ le_bytes 4 (unat y)"
      by blast
    have len: "length header = 16"
      unfolding hd by simp
    have u: "struct_unpack_Idf header = Some (n, t, y)"
      unfolding hd using r by (rule struct_unpack_pack)
    have tk: "take 16 msg = header" and dr: "drop 16 msg = frame_data"
      and ln: "length msg = 16 + length frame_data"
      using len by (simp_all add: m)
    show ?thesis
    proof (intro exI conjI)
      show "double_to_single f = Inr y" by (rule y)
      show "take 16 msg = le_bytes 4 (nat n) @ le_bytes 8 (unat t) @ le_bytes 4 (unat y)"
        unfolding tk by (rule hd)
      show "drop 16 msg = frame_data" by (rule dr)
      show "length msg = 16 + length frame_data" by (rule ln)
      show "struct_unpack_Idf (take 16 msg) = Some (n, t, y)"
        unfolding tk by (rule u)
    qed
  qed
  have p: "struct_pack_Idf 42 0x41D954FC40200000 0x403DB33333333333
       = Inr [0x2A, 0, 0, 0, 0, 0, 0x20, 0x40, 0xFC, 0x54, 0xD9, 0x41, 0x9A, 0x99, 0xED, 0x41]"
    by (simp add: codec_eval)
  have u: "struct_unpack_Idf
         [0x2A, 0, 0, 0, 0, 0, 0x20, 0x40, 0xFC, 0x54, 0xD9, 0x41, 0x9A, 0x99, 0xED, 0x41]
       = Some (42, 0x41D954FC40200000, 0x41ED999A)"
    by (simp add: struct_unpack_Idf_def)
  have v1: "valof64 0x41D954FC40200000 = Some (17000000005 / 10)"
    by (simp add: valof64_def Let_def)
  have v2: "valof64 0x403DB33333333333 = Some (8359806808306483 / 281474976710656)"
    by (simp add: valof64_def Let_def)
  have v3: "valof32 0x41ED999A = Some (15571354 / 524288)"
    by (simp add: valof32_def Let_def)
  have b1: "\<bar>8359806808306483 / 281474976710656 - 297 / 10\<bar> \<le> (1 / 2 ^ 49 :: real)"
    by simp
  have b2: "\<bar>15571354 / 524288 - 297 / 10\<bar> \<le> (1 / 2 ^ 20 :: real)"
    by simp
  show ?thesis
    apply (intro conjI impI)
  apply (erule general)
  apply (rule p)
  apply (rule u)
  apply (rule v1)
  apply (rule v2)
  apply (rule b1)
  apply (rule v3)
  apply (rule b2)
  done
qed


text \<open>
  The layout at the frame of C3 with the payload FF D8 FF: the message is built, so the
  hypothesis holds there.
\<close>

theorem frame_message_layout_witness:
  "frame_message 42 0x41D954FC40200000 0x403DB33333333333 [0xFF, 0xD8, 0xFF]
     = Inr [0x2A, 0, 0, 0, 0, 0, 0x20, 0x40, 0xFC, 0x54, 0xD9, 0x41, 0x9A, 0x99, 0xED, 0x41,
            0xFF, 0xD8, 0xFF]
   \<and> double_to_single 0x403DB33333333333 = Inr 0x41ED999A
   \<and> drop 16 [0x2A, 0, 0, 0, 0, 0, 0x20, 0x40, 0xFC, 0x54, 0xD9, 0x41, 0x9A, 0x99, 0xED, 0x41,
               0xFF, 0xD8, 0xFF :: byte] = [0xFF, 0xD8, 0xFF]
   \<and> struct_unpack_Idf
        (take 16 [0x2A, 0, 0, 0, 0, 0, 0x20, 0x40, 0xFC, 0x54, 0xD9, 0x41, 0x9A, 0x99, 0xED, 0x41,
                  0xFF, 0xD8, 0xFF])
       = Some (42, 0x41D954FC40200000, 0x41ED999A)"
proof -
  have m: "frame_message 42 0x41D954FC40200000 0x403DB33333333333 [0xFF, 0xD8, 0xFF]
     = Inr [0x2A, 0, 0, 0, 0, 0, 0x20, 0x40, 0xFC, 0x54, 0xD9, 0x41, 0x9A, 0x99, 0xED, 0x41,
            0xFF, 0xD8, 0xFF]"
    by (simp add: codec_eval)
  have d: "double_to_single 0x403DB33333333333 = Inr 0x41ED999A"
    by (simp add: codec_eval)
  from frame_message_layout [of 42 "0x41D954FC40200000" "0x403DB33333333333" "[0xFF, 0xD8, 0xFF]"
      "[0x2A, 0, 0, 0, 0, 0, 0x20, 0x40, 0xFC, 0x54, 0xD9, 0x41, 0x9A, 0x99, 0xED, 0x41,
            0xFF, 0xD8, 0xFF]"] m
  obtain y where "double_to_single 0x403DB33333333333 = Inr y"
    and "drop 16 [0x2A, 0, 0, 0, 0, 0, 0x20, 0x40, 0xFC, 0x54, 0xD9, 0x41, 0x9A, 0x99, 0xED, 0x41,
               0xFF, 0xD8, 0xFF :: byte] = [0xFF, 0xD8, 0xFF]"
    and "struct_unpack_Idf
        (take 16 [0x2A, 0, 0, 0, 0, 0, 0x20, 0x40, 0xFC, 0x54, 0xD9, 0x41, 0x9A, 0x99, 0xED, 0x41,
                  0xFF, 0xD8, 0xFF])
       = Some (42, 0x41D954FC40200000, y)"
    by blast
  then show ?thesis
    using m d by simp
qed

section \<open>Client sessions\<close>

text \<open>
  A text message is the dictionary handed to \<^verbatim>\<open>json.dumps\<close>, key by key; \<open>JBase64 b\<close> is
  the base64 text of the bytes \<open>b\<close>. A binary message is its bytes.
\<close>

datatype json = JStr string | JInt int | JNum real | JBool bool | JBase64 bytes

datatype message = Text "(string \<times> json) list" | Binary bytes

text \<open>
  What a session does, in order: \<^verbatim>\<open>connected_clients.add\<close> and \<^verbatim>\<open>.discard\<close>, entering
  and leaving \<^verbatim>\<open>with video_state.lock\<close>, \<^verbatim>\<open>await asyncio.sleep\<close> (in milliseconds) and
  \<^verbatim>\<open>await websocket.send\<close>.
\<close>

datatype action = Add_client | Discard_client | Acquire | Release | Sleep nat | Send message

text \<open>\<^verbatim>\<open>round(x, 1)\<close>: to the nearest tenth, a tie to the even one.\<close>

definition py_round1 :: "real \<Rightarrow> real" where
  "py_round1 x =
     (let n = \<lfloor>x * 10\<rfloor>; r = x * 10 - of_int n
      in (if r < 1 / 2 \<or> (r = 1 / 2 \<and> even n) then of_int n else of_int n + 1) / 10)"

text \<open>The frame message of v1 (lines 161-168) and v2 (lines 239-246).\<close>

definition frame_json :: "int \<Rightarrow> real \<Rightarrow> real \<Rightarrow> bytes \<Rightarrow> message" where
  "frame_json current_frame_id ts f frame_data =
     Text [(''type'', JStr ''frame''),
           (''frameId'', JInt current_frame_id),
           (''timestamp'', JNum ts),
           (''fps'', JNum (py_round1 f)),
           (''size'', JInt (int (length frame_data))),
           (''data'', JBase64 frame_data)]"

text \<open>The status message v1 sends first (lines 139-143).\<close>

definition initial_status :: "bool \<Rightarrow> message" where
  "initial_status c =
     Text [(''type'', JStr ''status''),
           (''connected'', JBool c),
           (''message'', JStr ''Connected to GO2 video bridge'')]"

text \<open>
  The \<^verbatim>\<open>while True\<close> loop of each \<^verbatim>\<open>handle_client\<close>, one list element per iteration:
  the shared state as the iteration finds it under the lock, and whether a
  \<^verbatim>\<open>websocket.send\<close> made in that iteration succeeds (\<open>ok\<close>; a failed send raises). The
  argument \<open>last_frame_id\<close> is the local variable of that name. The result lists the
  actions of the session; it ends where the iterations given end, or with
  \<open>Discard_client\<close> when the session is over.
\<close>

subsection \<open>v1\<close>

text \<open>
  Lines 148-173: the lock is held while five fields are copied; a frame newer than the
  last one sent is sent; every iteration ends in \<^verbatim>\<open>asyncio.sleep(0.033)\<close>. An exception
  of \<^verbatim>\<open>send\<close> leaves the loop through the \<^verbatim>\<open>finally\<close>.
\<close>

fun client_loop_v1 :: "int \<Rightarrow> (real VideoState \<times> bool) list \<Rightarrow> action list" where
  "client_loop_v1 last_frame_id [] = []"
| "client_loop_v1 last_frame_id ((vs, ok) # rest) =
     Acquire # Release #
     (case latest_frame vs of
        Some frame_data \<Rightarrow>
          if frame_id vs > last_frame_id then
            Send (frame_json (frame_id vs) (timestamp vs) (fps vs) frame_data) #
            (if ok then Sleep 33 # client_loop_v1 (frame_id vs) rest else [Discard_client])
          else Sleep 33 # client_loop_v1 last_frame_id rest
      | None \<Rightarrow> Sleep 33 # client_loop_v1 last_frame_id rest)"

text \<open>
  \<^verbatim>\<open>handle_client\<close> of v1: \<open>c\<close> is \<^verbatim>\<open>video_state.connected\<close> when the client connects,
  \<open>ok0\<close> whether the first send succeeds.
\<close>

definition handle_client_v1 :: "bool \<Rightarrow> bool \<Rightarrow> (real VideoState \<times> bool) list \<Rightarrow> action list" where
  "handle_client_v1 c ok0 obs =
     Add_client # Send (initial_status c) #
     (if ok0 then client_loop_v1 (- 1) obs else [Discard_client])"

subsection \<open>v2\<close>

text \<open>
  Lines 224-251. The test for a new frame and the \<^verbatim>\<open>await asyncio.sleep(0.01)\<close> of the
  case without one stand inside the \<^verbatim>\<open>with video_state.lock\<close> block; \<^verbatim>\<open>continue\<close> then
  leaves the block.
\<close>

fun client_loop_v2 :: "int \<Rightarrow> (real VideoState \<times> bool) list \<Rightarrow> action list" where
  "client_loop_v2 last_frame_id [] = []"
| "client_loop_v2 last_frame_id ((vs, ok) # rest) =
     Acquire #
     (case latest_frame vs of
        None \<Rightarrow> Sleep 10 # Release # client_loop_v2 last_frame_id rest
      | Some frame_data \<Rightarrow>
          if frame_id vs = last_frame_id then
            Sleep 10 # Release # client_loop_v2 last_frame_id rest
          else
            Release #
            Send (frame_json (frame_id vs) (timestamp vs) (fps vs) frame_data) #
            (if ok then Sleep 16 # client_loop_v2 (frame_id vs) rest else [Discard_client]))"

definition handle_client_v2 :: "(real VideoState \<times> bool) list \<Rightarrow> action list" where
  "handle_client_v2 obs = Add_client # client_loop_v2 (- 1) obs"

subsection \<open>v3\<close>

text \<open>
  Lines 227-259. As in v2 both sleeps of 5 ms stand inside the lock block. The header is
  packed after \<^verbatim>\<open>last_frame_id = frame_id\<close>; an exception of \<^verbatim>\<open>struct.pack\<close> is caught by
  the outer \<^verbatim>\<open>except Exception\<close>, a failed send by the inner one (\<^verbatim>\<open>break\<close>); both end
  in the \<^verbatim>\<open>finally\<close>.
\<close>

fun client_loop_v3 :: "int \<Rightarrow> (64 word VideoState \<times> bool) list \<Rightarrow> action list" where
  "client_loop_v3 last_frame_id [] = []"
| "client_loop_v3 last_frame_id ((vs, ok) # rest) =
     Acquire #
     (case latest_frame vs of
        None \<Rightarrow> Sleep 5 # Release # client_loop_v3 last_frame_id rest
      | Some frame_data \<Rightarrow>
          if frame_id vs = last_frame_id then
            Sleep 5 # Release # client_loop_v3 last_frame_id rest
          else
            Release #
            (case frame_message (frame_id vs) (timestamp vs) (fps vs) frame_data of
               Inl e \<Rightarrow> [Discard_client]
             | Inr message \<Rightarrow>
                 Send (Binary message) #
                 (if ok then Sleep 1 # client_loop_v3 (frame_id vs) rest else [Discard_client])))"

definition handle_client_v3 :: "(64 word VideoState \<times> bool) list \<Rightarrow> action list" where
  "handle_client_v3 obs = Add_client # client_loop_v3 (- 1) obs"

subsection \<open>v4\<close>

text \<open>
  Lines 163-192. The lock is held only while the three fields are copied, and only when
  \<^verbatim>\<open>video_state.latest_frame\<close> is truthy (not \<^verbatim>\<open>None\<close> and not empty) and the id differs;
  the sleep of 5 ms comes after the block. The rate in the header is the constant
  \<^verbatim>\<open>0.0\<close>. An exception of \<^verbatim>\<open>struct.pack\<close> leaves the function through the \<^verbatim>\<open>finally\<close>.
\<close>

fun client_loop_v4 :: "int \<Rightarrow> (64 word VideoState \<times> bool) list \<Rightarrow> action list" where
  "client_loop_v4 last_frame_id [] = []"
| "client_loop_v4 last_frame_id ((vs, ok) # rest) =
     Acquire # Release #
     (case (if latest_frame vs \<noteq> None \<and> latest_frame vs \<noteq> Some [] \<and> frame_id vs \<noteq> last_frame_id
            then latest_frame vs else None) of
        None \<Rightarrow> Sleep 5 # client_loop_v4 last_frame_id rest
      | Some frame_data \<Rightarrow>
          (case frame_message (frame_id vs) (timestamp vs) 0 frame_data of
             Inl e \<Rightarrow> [Discard_client]
           | Inr message \<Rightarrow>
               Send (Binary message) #
               (if ok then Sleep 1 # client_loop_v4 (frame_id vs) rest else [Discard_client])))"

definition handle_client_v4 :: "(64 word VideoState \<times> bool) list \<Rightarrow> action list" where
  "handle_client_v4 obs = Add_client # client_loop_v4 (- 1) obs"

subsection \<open>What a session sent\<close>

fun sent :: "action list \<Rightarrow> message list" where
  "sent [] = []"
| "sent (Send m # as) = m # sent as"
| "sent (_ # as) = sent as"

text \<open>
  A text message is a status or a frame message by its key \<^verbatim>\<open>type\<close>; the frame id of a
  frame message is its key \<^verbatim>\<open>frameId\<close>. Every binary message is a frame message, with
  the frame id in the first four bytes of its header.
\<close>

fun is_status :: "message \<Rightarrow> bool" where
  "is_status (Text kv) = (map_of kv ''type'' = Some (JStr ''status''))"
| "is_status (Binary b) = False"

fun message_frame_id :: "message \<Rightarrow> int option" where
  "message_frame_id (Text kv) =
     (if map_of kv ''type'' = Some (JStr ''frame'')
      then (case map_of kv ''frameId'' of Some (JInt n) \<Rightarrow> Some n | _ \<Rightarrow> None)
      else None)"
| "message_frame_id (Binary b) =
     (if length b < 16 then None else Some (int (le_value (take 4 b))))"

definition is_frame :: "message \<Rightarrow> bool" where
  "is_frame m = (message_frame_id m \<noteq> None)"

definition sent_frame_ids :: "action list \<Rightarrow> int list" where
  "sent_frame_ids as = List.map_filter message_frame_id (sent as)"

text \<open>The shared state with frame number \<open>n\<close> in the slot, all else as at the start.\<close>

definition slot_with :: "int \<Rightarrow> bytes \<Rightarrow> 'f::zero VideoState" where
  "slot_with n jpeg = VideoState_init\<lparr>latest_frame := Some jpeg, frame_id := n\<rparr>"

text \<open>
  No \<^verbatim>\<open>await\<close> while the lock is held: scanning the actions of a session with the state of
  the lock (\<open>held\<close>), every sleep and every send finds the lock free.
\<close>

fun suspends_outside_lock :: "bool \<Rightarrow> action list \<Rightarrow> bool" where
  "suspends_outside_lock held [] = True"
| "suspends_outside_lock held (Acquire # as) = suspends_outside_lock True as"
| "suspends_outside_lock held (Release # as) = suspends_outside_lock False as"
| "suspends_outside_lock held (Sleep d # as) = (\<not> held \<and> suspends_outside_lock held as)"
| "suspends_outside_lock held (Send m # as) = (\<not> held \<and> suspends_outside_lock held as)"
| "suspends_outside_lock held (Add_client # as) = suspends_outside_lock held as"
| "suspends_outside_lock held (Discard_client # as) = suspends_outside_lock held as"


subsection \<open>Order of the frame ids a session sends\<close>

lemma sent_frame_ids_simps [simp]:
  "sent_frame_ids [] = []"
  "sent_frame_ids (Add_client # as) = sent_frame_ids as"
  "sent_frame_ids (Discard_client # as) = sent_frame_ids as"
  "sent_frame_ids (Acquire # as) = sent_frame_ids as"
  "sent_frame_ids (Release # as) = sent_frame_ids as"
  "sent_frame_ids (Sleep d # as) = sent_frame_ids as"
  "sent_frame_ids (Send m # as) =
     (case message_frame_id m of None \<Rightarrow> sent_frame_ids as | Some n \<Rightarrow> n # sent_frame_ids as)"
  by (simp_all add: sent_frame_ids_def List.map_filter_simps split: option.splits)

lemma message_frame_id_frame_json [simp]:
  "message_frame_id (frame_json n ts f frame_data) = Some n"
  by (simp add: frame_json_def)

lemma message_frame_id_frame_message:
  assumes "frame_message n t f frame_data = Inr msg"
  shows "message_frame_id (Binary msg) = Some n"
proof -
  from assms obtain header where h: "struct_pack_Idf n t f = Inr header"
    and m: "msg = header @ frame_data"
    using frame_message_Inr by blast
  from struct_pack_Idf_Inr [OF h] obtain y where r: "0 \<le> n" "n < 2 ^ 32"
    and "double_to_single f = Inr y"
    and hd: "header = le_bytes 4 (nat n) @ le_bytes 8 (unat t) @ le_bytes 4 (unat y)"
    by blast
  have "nat n < 2 ^ 32"
    using r by (simp add: nat_less_iff)
  then have "int (le_value (le_bytes 4 (nat n))) = n"
    using r(1) by (simp add: le_value_le_bytes_4)
  then show ?thesis
    by (simp add: m hd)
qed

text \<open>
  The common shape of the four loops: an iteration sends nothing and keeps
  \<open>last_frame_id\<close>, or sends the id it found, which differs from \<open>last_frame_id\<close>, and
  goes on with that id or stops, or stops without sending.
\<close>

definition loop_shape :: "(int \<Rightarrow> 'a list \<Rightarrow> int list) \<Rightarrow> ('a \<Rightarrow> int) \<Rightarrow> bool" where
  "loop_shape ids key =
     (\<forall>l ob obs.
        ids l [] = []
        \<and> (ids l (ob # obs) = ids l obs
           \<or> ids l (ob # obs) = []
           \<or> (key ob \<noteq> l
              \<and> (ids l (ob # obs) = key ob # ids (key ob) obs \<or> ids l (ob # obs) = [key ob]))))"

lemma loop_shape_above:
  assumes sh: "loop_shape ids key"
    and "sorted (map key obs)"
    and "\<forall>ob \<in> set obs. l \<le> key ob"
  shows "(\<forall>x \<in> set (ids l obs). l < x) \<and> sorted_wrt (<) (ids l obs)"
  using assms(2,3)
proof (induction obs arbitrary: l)
  case Nil
  then show ?case using sh by (simp add: loop_shape_def)
next
  case (Cons ob obs)
  have s: "sorted (map key obs)"
    and ge: "\<forall>b \<in> set obs. key ob \<le> key b"
    and l: "l \<le> key ob" "\<forall>b \<in> set obs. l \<le> key b"
    using Cons.prems by auto
  note keep = Cons.IH [OF s l(2)]
  note go = Cons.IH [OF s ge]
  consider "ids l (ob # obs) = ids l obs" | "ids l (ob # obs) = []"
    | "key ob \<noteq> l" "ids l (ob # obs) = key ob # ids (key ob) obs"
    | "key ob \<noteq> l" "ids l (ob # obs) = [key ob]"
    using sh unfolding loop_shape_def by blast
  then show ?case
  proof cases
    case 1
    then show ?thesis using keep by simp
  next
    case 2
    then show ?thesis by simp
  next
    case 3
    then show ?thesis using go l(1) by auto
  next
    case 4
    then show ?thesis using l(1) by auto
  qed
qed

lemma loop_shape_sorted:
  assumes sh: "loop_shape ids key"
    and "sorted (map key obs)"
  shows "sorted_wrt (<) (ids l obs)"
  using assms(2)
proof (induction obs arbitrary: l)
  case Nil
  then show ?case using sh by (simp add: loop_shape_def)
next
  case (Cons ob obs)
  have s: "sorted (map key obs)"
    and ge: "\<forall>b \<in> set obs. key ob \<le> key b"
    using Cons.prems by auto
  note go = loop_shape_above [OF sh s ge]
  consider "ids l (ob # obs) = ids l obs" | "ids l (ob # obs) = []"
    | "ids l (ob # obs) = key ob # ids (key ob) obs"
    | "ids l (ob # obs) = [key ob]"
    using sh unfolding loop_shape_def by blast
  then show ?case
  proof cases
    case 1
    then show ?thesis using Cons.IH [OF s] by simp
  next
    case 2
    then show ?thesis by simp
  next
    case 3
    then show ?thesis using go by auto
  next
    case 4
    then show ?thesis by simp
  qed
qed

lemma loop_shape_v1:
  "loop_shape (\<lambda>l obs. sent_frame_ids (client_loop_v1 l obs)) (\<lambda>ob. frame_id (fst ob))"
  unfolding loop_shape_def by (auto split: option.splits)

lemma loop_shape_v2:
  "loop_shape (\<lambda>l obs. sent_frame_ids (client_loop_v2 l obs)) (\<lambda>ob. frame_id (fst ob))"
  unfolding loop_shape_def by (auto split: option.splits)

lemma loop_shape_v3:
  "loop_shape (\<lambda>l obs. sent_frame_ids (client_loop_v3 l obs)) (\<lambda>ob. frame_id (fst ob))"
  unfolding loop_shape_def
  by (auto simp: message_frame_id_frame_message simp del: message_frame_id.simps
      split: option.splits sum.splits)

lemma loop_shape_v4:
  "loop_shape (\<lambda>l obs. sent_frame_ids (client_loop_v4 l obs)) (\<lambda>ob. frame_id (fst ob))"
  unfolding loop_shape_def
  by (auto simp: message_frame_id_frame_message simp del: message_frame_id.simps
      split: option.splits sum.splits if_splits)

text \<open>v1 compares with \<^verbatim>\<open>>\<close>, so its ids increase whatever the states it finds.\<close>

lemma client_loop_v1_above:
  "(\<forall>x \<in> set (sent_frame_ids (client_loop_v1 l obs)). l < x)
   \<and> sorted_wrt (<) (sent_frame_ids (client_loop_v1 l obs))"
proof (induction obs arbitrary: l)
  case Nil
  then show ?case by simp
next
  case (Cons ob1 obs)
  obtain vs ok where ob1: "ob1 = (vs, ok)" by (cases ob1)
  show ?case
    using Cons.IH [of l] Cons.IH [of "frame_id vs"]
    by (auto simp: ob1 split: option.splits)
qed

text \<open>
  Three iterations of a session: frame 1 is in the slot, it still is, then frame 3 is
  (frame 2 came and went between two iterations). Every send succeeds.
\<close>

definition skipping_polls :: "('f::zero VideoState \<times> bool) list" where
  "skipping_polls =
     [(slot_with 1 [0xFF, 0xD8], True), (slot_with 1 [0xFF, 0xD8], True),
      (slot_with 3 [0xFF, 0xD9], True)]"

lemmas session_eval =
  handle_client_v1_def handle_client_v2_def handle_client_v3_def handle_client_v4_def
  slot_with_def VideoState_init_def frame_json_def initial_status_def

text \<open>
  C2. The frame ids of the frame messages a session sends, in the order it sends them, are
  strictly increasing: in v1 whatever states the session finds (it compares with \<^verbatim>\<open>>\<close>),
  in v2, v3 and v4 (which compare with \<^verbatim>\<open>==\<close> and \<^verbatim>\<open>!=\<close>) when the frame ids it finds in
  the shared state never decrease. Ids may be skipped: a session of v3 that finds frame 1,
  frame 1 again and frame 3 sends 1 and 3.
\<close>

theorem session_frame_ids_increase:
  "sorted_wrt (<) (sent_frame_ids (handle_client_v1 c ok0 obs1))
   \<and> (sorted (map (\<lambda>ob. frame_id (fst ob)) obs2) \<longrightarrow>
        sorted_wrt (<) (sent_frame_ids (handle_client_v2 obs2)))
   \<and> (sorted (map (\<lambda>ob. frame_id (fst ob)) obs3) \<longrightarrow>
        sorted_wrt (<) (sent_frame_ids (handle_client_v3 obs3))
        \<and> sorted_wrt (<) (sent_frame_ids (handle_client_v4 obs3)))
   \<and> sent_frame_ids (handle_client_v3
         skipping_polls) = [1, 3]"
proof -
  have v1: "sorted_wrt (<) (sent_frame_ids (handle_client_v1 c ok0 obs1))"
    using client_loop_v1_above [of "- 1" obs1]
    by (simp add: handle_client_v1_def initial_status_def)
  have v2: "sorted_wrt (<) (sent_frame_ids (handle_client_v2 obs2))"
    if "sorted (map (\<lambda>ob. frame_id (fst ob)) obs2)"
    using loop_shape_sorted [OF loop_shape_v2 that, of "- 1"]
    by (simp add: handle_client_v2_def)
  have v3: "sorted_wrt (<) (sent_frame_ids (handle_client_v3 obs3))"
    if "sorted (map (\<lambda>ob. frame_id (fst ob)) obs3)"
    using loop_shape_sorted [OF loop_shape_v3 that, of "- 1"]
    by (simp add: handle_client_v3_def)
  have v4: "sorted_wrt (<) (sent_frame_ids (handle_client_v4 obs3))"
    if "sorted (map (\<lambda>ob. frame_id (fst ob)) obs3)"
    using loop_shape_sorted [OF loop_shape_v4 that, of "- 1"]
    by (simp add: handle_client_v4_def)
  have skip: "sent_frame_ids (handle_client_v3
         skipping_polls) = [1, 3]"
    by (simp add: skipping_polls_def session_eval codec_eval)
  show ?thesis
    using v1 v2 v3 v4 skip by blast
qed

text \<open>
  The hypothesis of C2 holds for the three iterations above, in v2 and in v3 and v4, which
  send the ids 1 and 3.
\<close>

theorem session_frame_ids_increase_witness:
  "sorted (map (\<lambda>ob. frame_id (fst ob))
      (skipping_polls :: (real VideoState \<times> bool) list))
   \<and> sorted_wrt (<) (sent_frame_ids (handle_client_v2
         skipping_polls))
   \<and> sent_frame_ids (handle_client_v2
         skipping_polls) = [1, 3]
   \<and> sorted (map (\<lambda>ob. frame_id (fst ob))
      (skipping_polls :: (64 word VideoState \<times> bool) list))
   \<and> sorted_wrt (<) (sent_frame_ids (handle_client_v3
         skipping_polls))
   \<and> sorted_wrt (<) (sent_frame_ids (handle_client_v4
         skipping_polls))
   \<and> sent_frame_ids (handle_client_v4
         skipping_polls) = [1, 3]"
proof -
  have s2: "sorted (map (\<lambda>ob. frame_id (fst ob))
      (skipping_polls :: (real VideoState \<times> bool) list))"
    by (simp add: skipping_polls_def slot_with_def)
  have s3: "sorted (map (\<lambda>ob. frame_id (fst ob))
      (skipping_polls :: (64 word VideoState \<times> bool) list))"
    by (simp add: skipping_polls_def slot_with_def)
  have e2: "sent_frame_ids (handle_client_v2
         skipping_polls) = [1, 3]"
    by (simp add: skipping_polls_def session_eval)
  have e4: "sent_frame_ids (handle_client_v4
         skipping_polls) = [1, 3]"
    by (simp add: skipping_polls_def session_eval codec_eval)
  note t = session_frame_ids_increase [of True True "[]"
      skipping_polls
      skipping_polls]
  from t s2 have r2: "sorted_wrt (<) (sent_frame_ids (handle_client_v2
         skipping_polls))"
    by blast
  from t s3 have r3: "sorted_wrt (<) (sent_frame_ids (handle_client_v3
         skipping_polls))
     \<and> sorted_wrt (<) (sent_frame_ids (handle_client_v4
         skipping_polls))"
    by blast
  show ?thesis
    using s2 s3 e2 e4 r2 r3 by blast
qed

subsection \<open>The first message of a session\<close>

lemma is_frame_not_status: "is_frame m \<Longrightarrow> \<not> is_status m"
  by (cases m) (auto simp: is_frame_def split: if_splits)

lemma is_frame_frame_json [simp]: "is_frame (frame_json n ts f frame_data)"
  by (simp add: is_frame_def)

lemma is_frame_frame_message:
  "frame_message n t f frame_data = Inr msg \<Longrightarrow> is_frame (Binary msg)"
  using message_frame_id_frame_message [of n t f frame_data msg] by (simp add: is_frame_def)

lemma client_loop_v1_frames: "list_all is_frame (sent (client_loop_v1 l obs))"
  by (induction l obs rule: client_loop_v1.induct) (auto split: option.splits)

lemma client_loop_v2_frames: "list_all is_frame (sent (client_loop_v2 l obs))"
  by (induction l obs rule: client_loop_v2.induct) (auto split: option.splits)

lemma client_loop_v3_frames: "list_all is_frame (sent (client_loop_v3 l obs))"
  by (induction l obs rule: client_loop_v3.induct)
    (auto simp: is_frame_frame_message split: option.splits sum.splits)

lemma client_loop_v4_frames: "list_all is_frame (sent (client_loop_v4 l obs))"
  by (induction l obs rule: client_loop_v4.induct)
    (auto simp: is_frame_frame_message split: option.splits sum.splits if_splits)

text \<open>
  C7, as stated, fails in v2 and v3 (and v4): \<^verbatim>\<open>handle_client\<close> sends no status message
  there. A session that finds frame 1 in the slot sends that frame as its first message.
\<close>

theorem first_message_counterexample:
  "map is_status (sent (handle_client_v3 [(slot_with 1 [0xFF, 0xD8], True)])) = [False]
   \<and> map is_frame (sent (handle_client_v3 [(slot_with 1 [0xFF, 0xD8], True)])) = [True]
   \<and> map is_status (sent (handle_client_v2 [(slot_with 1 [0xFF, 0xD8], True)])) = [False]
   \<and> map is_frame (sent (handle_client_v2 [(slot_with 1 [0xFF, 0xD8], True)])) = [True]"
  by (simp add: session_eval codec_eval is_frame_def)

text \<open>
  C7, amended. In v1 the first message of every session is the status message, sent before
  the loop starts, and all that follows are frame messages. In v2, v3 and v4 every message
  \<^verbatim>\<open>handle_client\<close> sends is a frame message and none is a status message (v2 sessions
  get status messages from the periodic broadcast only, v3 and v4 have none).
\<close>

theorem status_first_in_v1_only:
  "(\<exists>ms. sent (handle_client_v1 c ok0 obs1) = initial_status c # ms
         \<and> list_all (\<lambda>m. is_frame m \<and> \<not> is_status m) ms)
   \<and> is_status (initial_status c)
   \<and> \<not> is_frame (initial_status c)
   \<and> list_all (\<lambda>m. is_frame m \<and> \<not> is_status m) (sent (handle_client_v2 obs2))
   \<and> list_all (\<lambda>m. is_frame m \<and> \<not> is_status m) (sent (handle_client_v3 obs3))
   \<and> list_all (\<lambda>m. is_frame m \<and> \<not> is_status m) (sent (handle_client_v4 obs3))"
proof -
  have imp: "list_all is_frame ms \<Longrightarrow> list_all (\<lambda>m. is_frame m \<and> \<not> is_status m) ms" for ms
    by (induction ms) (auto dest: is_frame_not_status)
  have a: "\<exists>ms. sent (handle_client_v1 c ok0 obs1) = initial_status c # ms
         \<and> list_all (\<lambda>m. is_frame m \<and> \<not> is_status m) ms"
    using imp [OF client_loop_v1_frames [of "- 1" obs1]]
    by (cases ok0) (simp_all add: handle_client_v1_def)
  have b: "is_status (initial_status c) \<and> \<not> is_frame (initial_status c)"
    by (simp add: initial_status_def is_frame_def)
  show ?thesis
    using a b imp [OF client_loop_v1_frames] imp [OF client_loop_v2_frames]
      imp [OF client_loop_v3_frames] imp [OF client_loop_v4_frames]
    by (simp add: handle_client_v2_def handle_client_v3_def handle_client_v4_def)
qed

text \<open>A session of v1 that finds frame 1: the status message, then the frame.\<close>

theorem status_first_in_v1_only_witness:
  "map is_status (sent (handle_client_v1 True True [(slot_with 1 [0xFF, 0xD8], True)]))
     = [True, False]
   \<and> map is_frame (sent (handle_client_v1 True True [(slot_with 1 [0xFF, 0xD8], True)]))
     = [False, True]"
proof -
  have "sent (handle_client_v1 True True [(slot_with 1 [0xFF, 0xD8], True)])
          = [initial_status True, frame_json 1 0 0 [0xFF, 0xD8]]"
    by (simp add: handle_client_v1_def slot_with_def VideoState_init_def)
  then show ?thesis
    using status_first_in_v1_only [of True True "[(slot_with 1 [0xFF, 0xD8], True)]" "[]" "[]"]
    by (simp add: is_frame_not_status)
qed

subsection \<open>The lock and the suspension points\<close>

text \<open>
  C8. In v2 and v3 the session sleeps while it holds \<^verbatim>\<open>video_state.lock\<close>: the
  \<^verbatim>\<open>await asyncio.sleep\<close> of the case without a new frame stands inside the
  \<^verbatim>\<open>with video_state.lock\<close> block (v2 lines 226-229, v3 lines 229-237). A client that
  connects before the first frame, or that polls again before the next frame, takes the
  lock, sleeps, and only then releases it.
\<close>

theorem lock_held_across_sleep:
  "handle_client_v2 [(VideoState_init, True)] = [Add_client, Acquire, Sleep 10, Release]
   \<and> \<not> suspends_outside_lock False (handle_client_v2 [(VideoState_init, True)])
   \<and> client_loop_v2 1 [(slot_with 1 [0xFF, 0xD8], True)] = [Acquire, Sleep 10, Release]
   \<and> \<not> suspends_outside_lock False (client_loop_v2 1 [(slot_with 1 [0xFF, 0xD8], True)])
   \<and> handle_client_v3 [(VideoState_init, True)] = [Add_client, Acquire, Sleep 5, Release]
   \<and> \<not> suspends_outside_lock False (handle_client_v3 [(VideoState_init, True)])
   \<and> client_loop_v3 1 [(slot_with 1 [0xFF, 0xD8], True)] = [Acquire, Sleep 5, Release]
   \<and> \<not> suspends_outside_lock False (client_loop_v3 1 [(slot_with 1 [0xFF, 0xD8], True)])"
  by (simp add: session_eval)

text \<open>
  v1 and v4 do what the claim says: the lock is released before every sleep and every
  send, whatever the session finds.
\<close>

lemma client_loop_v1_lock: "suspends_outside_lock False (client_loop_v1 l obs)"
  by (induction l obs rule: client_loop_v1.induct) (auto split: option.splits)

lemma handle_client_v1_lock: "suspends_outside_lock False (handle_client_v1 c ok0 obs)"
  by (simp add: handle_client_v1_def client_loop_v1_lock)

lemma client_loop_v4_lock: "suspends_outside_lock False (client_loop_v4 l obs)"
  by (induction l obs rule: client_loop_v4.induct)
    (auto split: option.splits sum.splits if_splits)

lemma handle_client_v4_lock: "suspends_outside_lock False (handle_client_v4 obs)"
  by (simp add: handle_client_v4_def client_loop_v4_lock)

subsection \<open>Frame ids beyond 32 bits\<close>

text \<open>
  C10. A frame message is built only for a frame id below \<open>2^32\<close>: for an id of \<open>2^32\<close> or
  more \<^verbatim>\<open>struct.pack\<close> raises \<^verbatim>\<open>struct.error\<close> on the format \<^verbatim>\<open>I\<close>, whatever the other two
  arguments, so no message exists; the session of v3 or v4 that finds such a frame sends
  nothing and ends.
\<close>

theorem frame_id_beyond_u32_not_packed:
  "(2 ^ 32 \<le> n \<longrightarrow>
      struct_pack_Idf n t f = Inl StructError \<and> frame_message n t f frame_data = Inl StructError)
   \<and> (frame_message n t f frame_data = Inr msg \<longrightarrow> 0 \<le> n \<and> n < 2 ^ 32)
   \<and> (2 ^ 32 \<le> frame_id vs \<and> latest_frame vs = Some frame_data \<and> frame_id vs \<noteq> l \<longrightarrow>
        client_loop_v3 l ((vs, ok) # rest) = [Acquire, Release, Discard_client])
   \<and> (2 ^ 32 \<le> frame_id vs \<and> latest_frame vs = Some frame_data \<and> frame_data \<noteq> []
        \<and> frame_id vs \<noteq> l \<longrightarrow>
        client_loop_v4 l ((vs, ok) # rest) = [Acquire, Release, Discard_client])"
proof -
  have e: "struct_pack_Idf n t f = Inl StructError" if "2 ^ 32 \<le> n" for n t f
    using that by (simp add: struct_pack_Idf_StructError)
  have m: "frame_message n t f frame_data = Inl StructError" if "2 ^ 32 \<le> n" for n t f frame_data
    using e [OF that] by (simp add: frame_message_def)
  have r: "0 \<le> n \<and> n < 2 ^ 32" if "frame_message n t f frame_data = Inr msg"
    using that frame_message_Inr struct_pack_Idf_Inr by blast
  show ?thesis
    using e m r by (auto)
qed

text \<open>
  At the id \<open>2^32\<close> packing fails and the session ends; at \<open>2^32 - 1\<close> the message is
  built.
\<close>

theorem frame_id_beyond_u32_not_packed_witness:
  "(2 :: int) ^ 32 \<le> 4294967296
   \<and> struct_pack_Idf 4294967296 0x41D954FC40200000 0x403DB33333333333 = Inl StructError
   \<and> frame_message 4294967296 0x41D954FC40200000 0x403DB33333333333 [0xFF, 0xD8] = Inl StructError
   \<and> frame_message 4294967295 0 0 [0xFF, 0xD8]
        = Inr [0xFF, 0xFF, 0xFF, 0xFF, 0, 0, 0, 0, 0, 0, 0, 0, 0, 0, 0, 0, 0xFF, 0xD8]
   \<and> (0 :: int) \<le> 4294967295 \<and> (4294967295 :: int) < 2 ^ 32
   \<and> client_loop_v3 4294967295 [(slot_with 4294967296 [0xFF, 0xD8], True)]
        = [Acquire, Release, Discard_client]
   \<and> client_loop_v4 4294967295 [(slot_with 4294967296 [0xFF, 0xD8], True)]
        = [Acquire, Release, Discard_client]"
proof -
  have p: "frame_message 4294967295 0 0 [0xFF, 0xD8]
        = Inr [0xFF, 0xFF, 0xFF, 0xFF, 0, 0, 0, 0, 0, 0, 0, 0, 0, 0, 0, 0, 0xFF, 0xD8]"
    by (simp add: codec_eval)
  have s: "frame_id (slot_with 4294967296 [0xFF, 0xD8] :: 64 word VideoState) = 4294967296"
    "latest_frame (slot_with 4294967296 [0xFF, 0xD8] :: 64 word VideoState) = Some [0xFF, 0xD8]"
    by (simp_all add: slot_with_def)
  show ?thesis
    using frame_id_beyond_u32_not_packed
      [of 4294967296 "0x41D954FC40200000" "0x403DB33333333333" "[0xFF, 0xD8]" "[]"
        "slot_with 4294967296 [0xFF, 0xD8]" 4294967295 True "[]"]
      frame_id_beyond_u32_not_packed
      [of 4294967295 0 0 "[0xFF, 0xD8]"
        "[0xFF, 0xFF, 0xFF, 0xFF, 0, 0, 0, 0, 0, 0, 0, 0, 0, 0, 0, 0, 0xFF, 0xD8]"
        "slot_with 4294967296 [0xFF, 0xD8]" 4294967295 True "[]"]
      p s
    by simp
qed

section \<open>Status broadcast\<close>

text \<open>
  The status messages of \<^verbatim>\<open>broadcast_status\<close>, v1 (lines 185-190) and v2 (lines 268-275);
  \<open>n\<close> is \<^verbatim>\<open>len(connected_clients)\<close>. The fields of \<^verbatim>\<open>video_state\<close> are read without the
  lock.
\<close>

definition status_json_v1 :: "real VideoState \<Rightarrow> nat \<Rightarrow> message" where
  "status_json_v1 vs n =
     Text [(''type'', JStr ''status''),
           (''connected'', JBool (connected_flag vs)),
           (''fps'', JNum (py_round1 (fps vs))),
           (''clients'', JInt (int n))]"

definition status_json_v2 :: "real VideoState \<Rightarrow> nat \<Rightarrow> message" where
  "status_json_v2 vs n =
     Text [(''type'', JStr ''status''),
           (''connected'', JBool (connected_flag vs)),
           (''fps'', JNum (py_round1 (fps vs))),
           (''width'', JInt (width vs)),
           (''height'', JInt (height vs)),
           (''clients'', JInt (int n))]"

text \<open>
  The loop of v2 over \<^verbatim>\<open>list(connected_clients)\<close> (lines 279-283):
  \<^verbatim>\<open>try: await client.send(message)\<close>, \<^verbatim>\<open>except: pass\<close>. \<open>send_ok client\<close> tells whether
  the send to that client returns (otherwise it raises). Each entry of the result is one
  call of \<^verbatim>\<open>send\<close>: the client, the message, and whether it was delivered.
\<close>

fun send_to_each :: "message \<Rightarrow> ('c \<Rightarrow> bool) \<Rightarrow> 'c list \<Rightarrow> ('c \<times> message \<times> bool) list" where
  "send_to_each msg send_ok [] = []"
| "send_to_each msg send_ok (client # rest) =
     (if send_ok client
      then (client, msg, True) # send_to_each msg send_ok rest
      else (client, msg, False) # send_to_each msg send_ok rest)"

text \<open>
  One round of \<^verbatim>\<open>broadcast_status\<close> of v2 after its \<^verbatim>\<open>await asyncio.sleep(1.0)\<close>:
  nothing when the registry is empty (\<^verbatim>\<open>continue\<close>). \<open>clients\<close> is
  \<^verbatim>\<open>list(connected_clients)\<close>, the members of the set in the order the list has them.
\<close>

definition broadcast_status_v2 ::
  "real VideoState \<Rightarrow> 'c list \<Rightarrow> ('c \<Rightarrow> bool) \<Rightarrow> ('c \<times> message \<times> bool) list" where
  "broadcast_status_v2 vs clients send_ok =
     (if clients = [] then []
      else send_to_each (status_json_v2 vs (length clients)) send_ok clients)"

text \<open>
  One round of v1, which hands the set to \<^verbatim>\<open>websockets.broadcast\<close>. That library function
  writes the message to every connection of the set that is open and raises for none of
  them (a connection that is closed or fails is skipped or logged).
\<close>

definition broadcast_status_v1 ::
  "real VideoState \<Rightarrow> 'c list \<Rightarrow> ('c \<Rightarrow> bool) \<Rightarrow> ('c \<times> message \<times> bool) list" where
  "broadcast_status_v1 vs clients send_ok =
     (if clients = [] then []
      else send_to_each (status_json_v1 vs (length clients)) send_ok clients)"

fun delivered :: "('c \<times> message \<times> bool) list \<Rightarrow> ('c \<times> message) list" where
  "delivered [] = []"
| "delivered ((client, msg, ok) # rest) =
     (if ok then (client, msg) # delivered rest else delivered rest)"

fun message_fields :: "message \<Rightarrow> (string \<times> json) list" where
  "message_fields (Text kv) = kv"
| "message_fields (Binary b) = []"

lemma map_fst_send_to_each: "map fst (send_to_each msg send_ok clients) = clients"
  by (induction clients) simp_all

lemma delivered_send_to_each:
  "delivered (send_to_each msg send_ok clients) = map (\<lambda>c. (c, msg)) (filter send_ok clients)"
  by (induction clients) simp_all

lemma set_send_to_each:
  "set (send_to_each msg send_ok clients) = (\<lambda>c. (c, msg, send_ok c)) ` set clients"
  by (induction clients) auto

text \<open>
  C9. A round of the status broadcast with a non-empty registry calls \<^verbatim>\<open>send\<close> once for
  every registered client, in v1 and v2, with one status message made of the connectivity
  flag, the rounded FPS rate and the number of clients; the clients it is delivered to are
  exactly those whose own send succeeds, so a failing client takes the message from no
  other. (v3 and v4 start no broadcaster: they have no round.)
\<close>

theorem status_broadcast_reaches_all:
  "(clients \<noteq> [] \<longrightarrow>
      map fst (broadcast_status_v2 vs clients send_ok) = clients
      \<and> (\<forall>c \<in> set clients.
            (c, status_json_v2 vs (length clients), send_ok c)
              \<in> set (broadcast_status_v2 vs clients send_ok))
      \<and> delivered (broadcast_status_v2 vs clients send_ok)
          = map (\<lambda>c. (c, status_json_v2 vs (length clients))) (filter send_ok clients)
      \<and> map fst (broadcast_status_v1 vs clients send_ok) = clients
      \<and> delivered (broadcast_status_v1 vs clients send_ok)
          = map (\<lambda>c. (c, status_json_v1 vs (length clients))) (filter send_ok clients))
   \<and> is_status (status_json_v2 vs n)
   \<and> map_of (message_fields (status_json_v2 vs n)) ''connected'' = Some (JBool (connected_flag vs))
   \<and> map_of (message_fields (status_json_v2 vs n)) ''fps'' = Some (JNum (py_round1 (fps vs)))
   \<and> map_of (message_fields (status_json_v2 vs n)) ''clients'' = Some (JInt (int n))
   \<and> is_status (status_json_v1 vs n)
   \<and> map_of (message_fields (status_json_v1 vs n)) ''connected'' = Some (JBool (connected_flag vs))
   \<and> map_of (message_fields (status_json_v1 vs n)) ''fps'' = Some (JNum (py_round1 (fps vs)))
   \<and> map_of (message_fields (status_json_v1 vs n)) ''clients'' = Some (JInt (int n))"
proof -
  have a: "is_status (status_json_v2 vs n)
   \<and> map_of (message_fields (status_json_v2 vs n)) ''connected'' = Some (JBool (connected_flag vs))
   \<and> map_of (message_fields (status_json_v2 vs n)) ''fps'' = Some (JNum (py_round1 (fps vs)))
   \<and> map_of (message_fields (status_json_v2 vs n)) ''clients'' = Some (JInt (int n))"
    by (simp add: status_json_v2_def)
  have b: "is_status (status_json_v1 vs n)
   \<and> map_of (message_fields (status_json_v1 vs n)) ''connected'' = Some (JBool (connected_flag vs))
   \<and> map_of (message_fields (status_json_v1 vs n)) ''fps'' = Some (JNum (py_round1 (fps vs)))
   \<and> map_of (message_fields (status_json_v1 vs n)) ''clients'' = Some (JInt (int n))"
    by (simp add: status_json_v1_def)
  have c: "clients \<noteq> [] \<longrightarrow>
      map fst (broadcast_status_v2 vs clients send_ok) = clients
      \<and> (\<forall>c \<in> set clients.
            (c, status_json_v2 vs (length clients), send_ok c)
              \<in> set (broadcast_status_v2 vs clients send_ok))
      \<and> delivered (broadcast_status_v2 vs clients send_ok)
          = map (\<lambda>c. (c, status_json_v2 vs (length clients))) (filter send_ok clients)
      \<and> map fst (broadcast_status_v1 vs clients send_ok) = clients
      \<and> delivered (broadcast_status_v1 vs clients send_ok)
          = map (\<lambda>c. (c, status_json_v1 vs (length clients))) (filter send_ok clients)"
    by (simp add: broadcast_status_v2_def broadcast_status_v1_def map_fst_send_to_each
        delivered_send_to_each set_send_to_each)
  show ?thesis
    using a b c by blast
qed

text \<open>Three clients, the send to client 2 fails: clients 1 and 3 get the message.\<close>

theorem status_broadcast_reaches_all_witness:
  "[1, 2, 3 :: nat] \<noteq> []
   \<and> map fst (broadcast_status_v2 VideoState_init [1, 2, 3 :: nat] (\<lambda>c. c \<noteq> 2)) = [1, 2, 3]
   \<and> delivered (broadcast_status_v2 VideoState_init [1, 2, 3 :: nat] (\<lambda>c. c \<noteq> 2))
       = [(1, status_json_v2 VideoState_init 3), (3, status_json_v2 VideoState_init 3)]
   \<and> delivered (broadcast_status_v1 VideoState_init [1, 2, 3 :: nat] (\<lambda>c. c \<noteq> 2))
       = [(1, status_json_v1 VideoState_init 3), (3, status_json_v1 VideoState_init 3)]"
  using status_broadcast_reaches_all [of "[1, 2, 3 :: nat]" VideoState_init "\<lambda>c. c \<noteq> 2"]
  by (simp add: numeral_3_eq_3)

section \<open>Start of the process\<close>

text \<open>
  What \<^verbatim>\<open>main\<close> does up to the point where it serves or exits: starting a thread,
  \<^verbatim>\<open>time.sleep\<close> (in milliseconds), a printed report of a failure or a warning,
  \<^verbatim>\<open>sys.exit\<close>, installing the signal handlers, and \<^verbatim>\<open>asyncio.run\<close> of the WebSocket
  server, which returns only at shutdown. The banner and the progress lines that
  \<^verbatim>\<open>main\<close> and \<^verbatim>\<open>start\<close> print are left out.
\<close>

datatype main_action =
    Start_thread
  | Pause nat
  | Report string
  | Exit int
  | Install_signal_handlers
  | Serve

text \<open>
  \<^verbatim>\<open>GO2VideoReceiver.start\<close>: \<^verbatim>\<open>Gst.parse_launch\<close> raises, or \<^verbatim>\<open>set_state(PLAYING)\<close>
  returns \<^verbatim>\<open>FAILURE\<close>, or the pipeline starts. v2 and v3 print a line in both failures,
  v4 only in the first.
\<close>

datatype start_result = Parse_failed | Play_failed | Started

fun start_v2 :: "start_result \<Rightarrow> main_action list \<times> bool" where
  "start_v2 Parse_failed = ([Report ''[GStreamer] Failed to create pipeline''], False)"
| "start_v2 Play_failed = ([Report ''[GStreamer] Failed to start pipeline''], False)"
| "start_v2 Started = ([], True)"

fun start_v3 :: "start_result \<Rightarrow> main_action list \<times> bool" where
  "start_v3 Parse_failed = ([Report ''[GStreamer] Failed to create pipeline''], False)"
| "start_v3 Play_failed = ([Report ''[GStreamer] Failed to start pipeline''], False)"
| "start_v3 Started = ([], True)"

fun start_v4 :: "start_result \<Rightarrow> main_action list \<times> bool" where
  "start_v4 Parse_failed = ([Report ''[GStreamer] Failed''], False)"
| "start_v4 Play_failed = ([], False)"
| "start_v4 Started = ([], True)"

text \<open>\<^verbatim>\<open>main\<close> of v2 (lines 315-339), v3 (lines 295-315) and v4 (lines 244-267).\<close>

definition main_v2 :: "start_result \<Rightarrow> main_action list" where
  "main_v2 r =
     [Start_thread, Pause 500] @ fst (start_v2 r) @
     (if \<not> snd (start_v2 r)
      then [Report ''[Main] Failed to start video receiver'', Exit 1]
      else [Install_signal_handlers, Serve])"

definition main_v3 :: "start_result \<Rightarrow> main_action list" where
  "main_v3 r =
     [Start_thread, Pause 300] @ fst (start_v3 r) @
     (if \<not> snd (start_v3 r) then [Exit 1] else [Install_signal_handlers, Serve])"

definition main_v4 :: "start_result \<Rightarrow> main_action list" where
  "main_v4 r =
     [Start_thread, Pause 300] @ fst (start_v4 r) @
     (if \<not> snd (start_v4 r)
      then [Report ''[Main] Failed to start video receiver'', Exit 1]
      else [Install_signal_handlers, Serve])"

text \<open>
  \<^verbatim>\<open>main\<close> of v1 starts the capture thread and reads \<^verbatim>\<open>video_state.connected\<close> up to 50
  times, 0.1 s apart (lines 245-248), once more after the loop (line 250), and serves in
  either case. \<open>connected_at i\<close> is the value of the flag at the read number \<open>i\<close> of
  \<^verbatim>\<open>main\<close>; \<open>wait_for_video\<close> gives the pauses of the loop and the number of the next read.
\<close>

fun wait_for_video :: "(nat \<Rightarrow> bool) \<Rightarrow> nat \<Rightarrow> nat \<Rightarrow> main_action list \<times> nat" where
  "wait_for_video connected_at i 0 = ([], i)"
| "wait_for_video connected_at i (Suc n) =
     (if connected_at i then ([], Suc i)
      else (Pause 100 # fst (wait_for_video connected_at (Suc i) n),
            snd (wait_for_video connected_at (Suc i) n)))"

definition main_v1 :: "(nat \<Rightarrow> bool) \<Rightarrow> main_action list" where
  "main_v1 connected_at =
     Start_thread # fst (wait_for_video connected_at 0 50) @
     (if \<not> connected_at (snd (wait_for_video connected_at 0 50))
      then [Report ''[Main] WARNING: Video not connected yet, but starting WebSocket server anyway'']
      else []) @
     [Serve]"

text \<open>
  The flag as \<^verbatim>\<open>main\<close> of v1 reads it when \<^verbatim>\<open>cv2.VideoCapture\<close> cannot be opened: the
  capture thread sets it to \<^verbatim>\<open>False\<close> and returns.
\<close>

definition never_opened :: "nat \<Rightarrow> bool" where
  "never_opened i = connected_flag (video_capture_thread False [] (VideoState_init :: real VideoState))"

fun is_Report :: "main_action \<Rightarrow> bool" where
  "is_Report (Report s) = True"
| "is_Report _ = False"

fun is_Exit :: "main_action \<Rightarrow> bool" where
  "is_Exit (Exit n) = True"
| "is_Exit _ = False"

lemma wait_for_video_never:
  "(\<And>j. \<not> c j) \<Longrightarrow> wait_for_video c i n = (replicate n (Pause 100), i + n)"
  by (induction n arbitrary: i) simp_all

lemma wait_for_video_pauses:
  "list_all (\<lambda>a. a \<noteq> Serve \<and> \<not> is_Exit a) (fst (wait_for_video c i n))"
  by (induction n arbitrary: i) simp_all

text \<open>
  C6, as stated, fails in v1: when the video source cannot be opened, \<^verbatim>\<open>main\<close> waits its 50
  pauses, prints the warning that it starts the server anyway, and serves; it exits
  nowhere.
\<close>

theorem init_failure_counterexample:
  "main_v1 never_opened =
     Start_thread # replicate 50 (Pause 100) @
     [Report ''[Main] WARNING: Video not connected yet, but starting WebSocket server anyway'',
      Serve]
   \<and> last (main_v1 never_opened) = Serve
   \<and> filter is_Exit (main_v1 never_opened) = []"
proof -
  have n: "\<not> never_opened j" for j
    by (simp add: never_opened_def video_capture_thread_def)
  have "main_v1 never_opened =
     Start_thread # replicate 50 (Pause 100) @
     [Report ''[Main] WARNING: Video not connected yet, but starting WebSocket server anyway'',
      Serve]"
    using n by (simp add: main_v1_def wait_for_video_never)
  then show ?thesis
    by (simp add: filter_empty_conv)
qed

text \<open>
  C6, amended. In v2, v3 and v4, when \<^verbatim>\<open>receiver.start()\<close> fails the process prints a
  report of the failure and ends with \<^verbatim>\<open>sys.exit(1)\<close> without ever serving; when it
  succeeds the process serves. v1 never exits before serving: whatever the state of the
  video source, it ends up serving.
\<close>

theorem init_failure_exits_v2_v3_v4:
  "(r \<noteq> Started \<longrightarrow>
      last (main_v2 r) = Exit 1 \<and> Serve \<notin> set (main_v2 r) \<and> list_ex is_Report (main_v2 r)
      \<and> last (main_v3 r) = Exit 1 \<and> Serve \<notin> set (main_v3 r) \<and> list_ex is_Report (main_v3 r)
      \<and> last (main_v4 r) = Exit 1 \<and> Serve \<notin> set (main_v4 r) \<and> list_ex is_Report (main_v4 r))
   \<and> last (main_v2 Started) = Serve \<and> last (main_v3 Started) = Serve
   \<and> last (main_v4 Started) = Serve
   \<and> last (main_v1 connected_at) = Serve
   \<and> filter is_Exit (main_v1 connected_at) = []"
proof -
  have a: "last (main_v2 r) = Exit 1 \<and> Serve \<notin> set (main_v2 r) \<and> list_ex is_Report (main_v2 r)
      \<and> last (main_v3 r) = Exit 1 \<and> Serve \<notin> set (main_v3 r) \<and> list_ex is_Report (main_v3 r)
      \<and> last (main_v4 r) = Exit 1 \<and> Serve \<notin> set (main_v4 r) \<and> list_ex is_Report (main_v4 r)"
    if "r \<noteq> Started"
    using that by (cases r) (simp_all add: main_v2_def main_v3_def main_v4_def)
  have b: "last (main_v2 Started) = Serve \<and> last (main_v3 Started) = Serve
      \<and> last (main_v4 Started) = Serve"
    by (simp add: main_v2_def main_v3_def main_v4_def)
  have c: "last (main_v1 connected_at) = Serve"
    by (simp add: main_v1_def)
  have d: "filter is_Exit (main_v1 connected_at) = []"
    using wait_for_video_pauses [of connected_at 0 50]
    by (auto simp: main_v1_def filter_empty_conv list_all_iff)
  show ?thesis
    using a b c d by blast
qed

text \<open>The traces of the three variants at a failing start.\<close>

theorem init_failure_exits_v2_v3_v4_witness:
  "Parse_failed \<noteq> Started
   \<and> main_v2 Parse_failed =
       [Start_thread, Pause 500, Report ''[GStreamer] Failed to create pipeline'',
        Report ''[Main] Failed to start video receiver'', Exit 1]
   \<and> main_v3 Play_failed =
       [Start_thread, Pause 300, Report ''[GStreamer] Failed to start pipeline'', Exit 1]
   \<and> main_v4 Play_failed =
       [Start_thread, Pause 300, Report ''[Main] Failed to start video receiver'', Exit 1]
   \<and> last (main_v2 Parse_failed) = Exit 1
   \<and> last (main_v3 Play_failed) = Exit 1
   \<and> last (main_v4 Play_failed) = Exit 1"
  using init_failure_exits_v2_v3_v4 [of Parse_failed never_opened]
    init_failure_exits_v2_v3_v4 [of Play_failed never_opened]
  by (simp add: main_v2_def main_v3_def main_v4_def)

end
